theory Spec2Isabelle
  imports Complex_Main
begin

section \<open>Data model\<close>

text \<open>
  The persistent state of the service is a PostgreSQL database (tables \<open>customers\<close>,
  \<open>agents\<close>, \<open>usage_events\<close>, \<open>kill_switch_events\<close>, the single row of
  \<open>global_kill_switch\<close>) and a Redis hash per month holding each agent's running spend.
  Tables are lists of rows in insertion order. Timestamps are milliseconds as integers,
  UUIDs are natural numbers, amounts are exact rationals. Columns that no modelled
  statement reads (display names, descriptions, the stored token counts, free-form
  metadata other than \<open>request_hash\<close>) are left out of the rows.

  A statement of the handlers fails where the schema makes it fail on the values of the
  request: the INSERT into \<open>usage_events\<close> on a value that does not fit its column
  (\<open>usage_events_accepts\<close> below), the INSERT into \<open>kill_switch_events\<close> on a NULL reason.
  The server itself is reachable, so no statement fails for want of a connection. Strings
  are PostgreSQL texts (the character NUL, which no text value holds, does not occur), and
  the external identifiers handed to \<open>ensureCustomerExists\<close> and \<open>ensureAgentExists\<close>
  fit the VARCHAR(255) columns they are inserted into (\<open>identifiers_fit\<close> below names
  this side condition where a statement promises that a request is recorded).
  Redis may be unreachable (\<open>redis_up\<close>), and then its two operations take their own
  \<open>catch\<close> branches. One request runs at a time.
\<close>

datatype agent_status = Active | Paused | Killed

record agent =
  uuid :: nat
  user_id :: nat
  agent_id :: string
  status :: agent_status
  kill_reason :: "string option"
  killed_at :: "int option"
  killed_by :: "nat option"
  pause_until :: "int option"
  is_suspended :: bool
  monthly_cost_limit :: "rat option"

record customer =
  c_uuid :: nat
  c_user_id :: nat
  c_customer_id :: string

record usage_event =
  ue_user_id :: nat
  ue_agent_id :: nat
  ue_event_name :: string
  ue_model :: "string option"
  ue_cost_amount :: rat
  ue_request_hash :: "string option"
  ue_event_timestamp :: int
  ue_created_at :: int

record kill_switch_event =
  event_type :: string
  target_type :: string
  target_id :: "string option"
  kse_user_id :: nat
  triggered_by :: string
  reason :: string

record global_kill_switch =
  is_emergency_stopped :: bool
  stopped_at :: "int option"
  stopped_by :: "nat option"
  stop_reason :: "string option"

record world =
  customers :: "customer list"
  agents :: "agent list"
  usage_events :: "usage_event list"
  kill_switch_events :: "kill_switch_event list"
  gks :: global_kill_switch
  redis_up :: bool
  agent_spend :: "nat \<times> string \<Rightarrow> rat option"

text \<open>
  An HTTP response: its status and, where the handler sends one, the machine-readable
  \<open>code\<close> string of the JSON body.
\<close>

datatype response = Response nat "string option"

text \<open>
  The body of \<open>POST /record\<close> as the client sends it, before any validation: each key
  is absent (\<open>None\<close>) or carries a value. \<open>b_request_hash\<close> is the \<open>request_hash\<close> entry
  of \<open>metadata\<close>, \<open>b_event_timestamp\<close> the instant an ISO date denotes.
\<close>

record usage_body =
  b_event_name :: "string option"
  b_agent_id :: "string option"
  b_customer_id :: "string option"
  b_vendor :: "string option"
  b_model :: "string option"
  b_cost_amount :: "rat option"
  b_cost_currency :: "string option"
  b_input_tokens :: "nat option"
  b_output_tokens :: "nat option"
  b_total_tokens :: "nat option"
  b_request_hash :: "string option"
  b_event_timestamp :: "int option"


section \<open>Spend cache (config/redis.js)\<close>

text \<open>
  The hash \<open>agent_spend_<YYYY-MM>\<close> is keyed by the external agent id. A missing field
  (\<open>hGet\<close> gives null, \<open>parseFloat(null) || 0\<close>), a stored zero and a Redis error (the
  \<open>catch\<close> branch) all read as 0.
\<close>

definition getAgentSpend :: "world \<Rightarrow> nat \<Rightarrow> string \<Rightarrow> rat" where
  "getAgentSpend w month agentId =
     (if redis_up w
      then (case agent_spend w (month, agentId) of None \<Rightarrow> 0 | Some v \<Rightarrow> v)
      else 0)"

definition incrementAgentSpend :: "world \<Rightarrow> nat \<Rightarrow> string \<Rightarrow> rat \<Rightarrow> world" where
  "incrementAgentSpend w month agentId costAmount =
     (if redis_up w
      then w\<lparr>agent_spend := (agent_spend w)((month, agentId) \<mapsto>
             (case agent_spend w (month, agentId) of None \<Rightarrow> 0 | Some v \<Rightarrow> v) + costAmount)\<rparr>
      else w)"

section \<open>Budget middleware (middleware/agentBudget.js)\<close>

datatype gate = Respond response | NextDeferred | NextAgent agent

definition find_agent :: "nat \<Rightarrow> string \<Rightarrow> agent list \<Rightarrow> agent option" where
  "find_agent uid ext ags = find (\<lambda>a. agent_id a = ext \<and> user_id a = uid) ags"

text \<open>
  \<open>SELECT COALESCE(SUM(cost_amount), 0) FROM usage_events WHERE agent_id = $1 AND
  DATE_TRUNC('month', event_timestamp) = DATE_TRUNC('month', CURRENT_DATE)\<close>. The
  calendar is a parameter: \<open>month_of\<close> maps a timestamp to its month.
\<close>

definition ledger_month_spend :: "(int \<Rightarrow> nat) \<Rightarrow> int \<Rightarrow> world \<Rightarrow> nat \<Rightarrow> rat" where
  "ledger_month_spend month_of now w aid =
     sum_list (map ue_cost_amount
       (filter (\<lambda>e. ue_agent_id e = aid \<and> month_of (ue_event_timestamp e) = month_of now)
          (usage_events w)))"

definition set_suspended :: "nat \<Rightarrow> agent list \<Rightarrow> agent list" where
  "set_suspended aid ags = map (\<lambda>a. if uuid a = aid then a\<lparr>is_suspended := True\<rparr> else a) ags"

text \<open>
  Steps 3 of \<open>enforceAgentBudget\<close>: read the cached spend; when it reads 0 aggregate the
  ledger, add a positive sum to the cache and read the cache again. Returns the spend
  the check goes on with and the world after the backfill.
\<close>

definition current_spend :: "(int \<Rightarrow> nat) \<Rightarrow> int \<Rightarrow> agent \<Rightarrow> world \<Rightarrow> rat \<times> world" where
  "current_spend month_of now a w =
     (let cached = getAgentSpend w (month_of now) (agent_id a) in
      if cached = 0 then
        (let ledger = ledger_month_spend month_of now w (uuid a) in
         if ledger > 0 then
           (let w' = incrementAgentSpend w (month_of now) (agent_id a) ledger
            in (getAgentSpend w' (month_of now) (agent_id a), w'))
         else (ledger, w))
      else (cached, w))"

definition enforceAgentBudget ::
  "(int \<Rightarrow> nat) \<Rightarrow> int \<Rightarrow> nat \<Rightarrow> usage_body \<Rightarrow> world \<Rightarrow> gate \<times> world" where
  "enforceAgentBudget month_of now uid body w =
     (case b_agent_id body of
        None \<Rightarrow> (Respond (Response 400 (Some ''MISSING_AGENT_ID'')), w)
      | Some ext \<Rightarrow>
          if ext = [] then (Respond (Response 400 (Some ''MISSING_AGENT_ID'')), w)
          else
            (case find_agent uid ext (agents w) of
               None \<Rightarrow> (NextDeferred, w)
             | Some a \<Rightarrow>
                 if is_suspended a then (Respond (Response 403 (Some ''AGENT_SUSPENDED'')), w)
                 else
                   (case monthly_cost_limit a of
                      None \<Rightarrow> (NextAgent a, w)
                    | Some limit \<Rightarrow>
                        (let requestedCost = (case b_cost_amount body of None \<Rightarrow> 0 | Some c \<Rightarrow> c);
                             (currentSpend, w1) = current_spend month_of now a w;
                             projectedSpend = currentSpend + requestedCost
                         in if projectedSpend > limit
                            then (Respond (Response 403 (Some ''BUDGET_LIMIT_EXCEEDED'')),
                                  w1\<lparr>agents := set_suspended (uuid a) (agents w1)\<rparr>)
                            else (NextAgent a, w1)))))"

text \<open>
  \<open>checkAgentBudgetAfterCreation\<close>: \<open>Inl\<close> is the thrown "Agent not found after
  creation", \<open>Inr None\<close> is \<open>allowed: true\<close>, \<open>Inr (Some c)\<close> is a refusal with code \<open>c\<close>.
\<close>

definition checkAgentBudgetAfterCreation ::
  "nat \<Rightarrow> rat \<Rightarrow> nat \<Rightarrow> world \<Rightarrow> (unit + string option) \<times> world" where
  "checkAgentBudgetAfterCreation agentUuid requestedCost uid w =
     (case find (\<lambda>a. uuid a = agentUuid \<and> user_id a = uid) (agents w) of
        None \<Rightarrow> (Inl (), w)
      | Some a \<Rightarrow>
          if is_suspended a then (Inr (Some ''AGENT_SUSPENDED''), w)
          else
            (case monthly_cost_limit a of
               None \<Rightarrow> (Inr None, w)
             | Some limit \<Rightarrow>
                 if requestedCost > limit
                 then (Inr (Some ''BUDGET_LIMIT_EXCEEDED''),
                       w\<lparr>agents := set_suspended agentUuid (agents w)\<rparr>)
                 else (Inr None, w)))"

section \<open>Kill-switch read side (SQL function is_agent_active)\<close>

text \<open>
  The global flag is read first. A row that is not found or is killed gives FALSE; a
  paused row whose \<open>pause_until\<close> is later than now gives FALSE; a paused row whose
  \<open>pause_until\<close> is not later is set to active with \<open>pause_until\<close> NULL (the UPDATE has
  only \<open>WHERE id = p_agent_id\<close>) and gives TRUE; comparisons with a NULL \<open>pause_until\<close>
  are not true, so such a paused row falls through to \<open>agent_status = 'active'\<close>.
\<close>

definition unpause :: "nat \<Rightarrow> agent list \<Rightarrow> agent list" where
  "unpause aid ags =
     map (\<lambda>a. if uuid a = aid then a\<lparr>status := Active, pause_until := None\<rparr> else a) ags"

definition is_agent_active :: "int \<Rightarrow> nat \<Rightarrow> nat \<Rightarrow> world \<Rightarrow> bool \<times> world" where
  "is_agent_active now p_agent_id p_user_id w =
     (if is_emergency_stopped (gks w) then (False, w)
      else
        (case find (\<lambda>a. uuid a = p_agent_id \<and> user_id a = p_user_id) (agents w) of
           None \<Rightarrow> (False, w)
         | Some a \<Rightarrow>
             if status a = Killed then (False, w)
             else if status a = Paused \<and> (case pause_until a of None \<Rightarrow> False | Some t \<Rightarrow> t > now)
             then (False, w)
             else if status a = Paused \<and> (case pause_until a of None \<Rightarrow> False | Some t \<Rightarrow> t \<le> now)
             then (True, w\<lparr>agents := unpause p_agent_id (agents w)\<rparr>)
             else (status a = Active, w)))"

section \<open>Usage recording (routes/usage.js)\<close>

text \<open>
  \<open>usageEventSchema\<close>: the four names are required non-empty strings (Joi's
  \<open>string()\<close> refuses the empty string), \<open>model\<close> and \<open>cost_currency\<close> are optional
  strings, \<open>cost_amount\<close> is required and positive, the token counts are optional
  non-negative integers. Joi's \<open>number()\<close> refuses a number beyond
  \<open>Number.MAX_SAFE_INTEGER\<close>, and \<open>date()\<close> an instant outside the range of a
  JavaScript \<open>Date\<close>.
\<close>

definition required_string :: "string option \<Rightarrow> bool" where
  "required_string v = (case v of None \<Rightarrow> False | Some s \<Rightarrow> s \<noteq> [])"

definition optional_string :: "string option \<Rightarrow> bool" where
  "optional_string v = (case v of None \<Rightarrow> True | Some s \<Rightarrow> s \<noteq> [])"

definition MAX_SAFE_INTEGER :: nat where
  "MAX_SAFE_INTEGER = 9007199254740991"

definition optional_count :: "nat option \<Rightarrow> bool" where
  "optional_count v = (case v of None \<Rightarrow> True | Some n \<Rightarrow> n \<le> MAX_SAFE_INTEGER)"

definition usageEventSchema :: "usage_body \<Rightarrow> bool" where
  "usageEventSchema b =
     (required_string (b_event_name b) \<and> required_string (b_agent_id b) \<and>
      required_string (b_customer_id b) \<and> required_string (b_vendor b) \<and>
      optional_string (b_model b) \<and>
      (case b_cost_amount b of None \<Rightarrow> False | Some c \<Rightarrow> c > 0 \<and> c \<le> of_nat MAX_SAFE_INTEGER) \<and>
      optional_string (b_cost_currency b) \<and>
      optional_count (b_input_tokens b) \<and> optional_count (b_output_tokens b) \<and>
      optional_count (b_total_tokens b) \<and>
      (case b_event_timestamp b of None \<Rightarrow> True
       | Some t \<Rightarrow> - 8640000000000000 \<le> t \<and> t \<le> 8640000000000000))"

text \<open>Reading a field of a validated body: \<open>get d v\<close> is the value, \<open>d\<close> when absent.\<close>

definition get :: "'a \<Rightarrow> 'a option \<Rightarrow> 'a" where
  "get d v = (case v of None \<Rightarrow> d | Some x \<Rightarrow> x)"

text \<open>
  \<open>ensureCustomerExists\<close>: the id of the user's customer with that external id, inserted
  first when there is none.
\<close>

definition ensureCustomerExists :: "nat \<Rightarrow> string \<Rightarrow> world \<Rightarrow> nat \<times> world" where
  "ensureCustomerExists uid ext w =
     (case find (\<lambda>c. c_user_id c = uid \<and> c_customer_id c = ext) (customers w) of
        None \<Rightarrow>
          (let i = Suc (foldr max (map c_uuid (customers w)) 0)
           in (i, w\<lparr>customers := customers w @
                      [\<lparr>c_uuid = i, c_user_id = uid, c_customer_id = ext\<rparr>]\<rparr>))
      | Some c \<Rightarrow> (c_uuid c, w))"

text \<open>A new row takes the column defaults; its id is fresh.\<close>

definition fresh_uuid :: "agent list \<Rightarrow> nat" where
  "fresh_uuid ags = Suc (foldr max (map uuid ags) 0)"

definition new_agent :: "nat \<Rightarrow> nat \<Rightarrow> string \<Rightarrow> agent" where
  "new_agent i uid ext =
     \<lparr>uuid = i, user_id = uid, agent_id = ext, status = Active, kill_reason = None,
      killed_at = None, killed_by = None, pause_until = None, is_suspended = False,
      monthly_cost_limit = None\<rparr>"

definition ensureAgentExists :: "nat \<Rightarrow> string \<Rightarrow> world \<Rightarrow> nat \<times> world" where
  "ensureAgentExists uid ext w =
     (case find (\<lambda>a. user_id a = uid \<and> agent_id a = ext) (agents w) of
        None \<Rightarrow>
          (let i = fresh_uuid (agents w)
           in (i, w\<lparr>agents := agents w @ [new_agent i uid ext]\<rparr>))
      | Some a \<Rightarrow> (uuid a, w))"

definition checkAgentStatus :: "int \<Rightarrow> nat \<Rightarrow> nat \<Rightarrow> world \<Rightarrow> bool \<times> world" where
  "checkAgentStatus now uid agentUuid w = is_agent_active now agentUuid uid w"

text \<open>
  What the columns of \<open>usage_events\<close> take. A VARCHAR(n) column takes a string whose
  characters after the n-th are all spaces, and stores its first n characters.
  DECIMAL(10,6) rounds a value to six decimals, half away from zero (\<open>numeric_10_6\<close> is
  applied to positive amounts only), and refuses it when the rounded value does not stay
  below \<open>10^4\<close>. INTEGER takes up to \<open>2^31 - 1\<close>. TIMESTAMP begins on 24 November
  4714 BC. \<open>finalTotalTokens\<close> is \<open>total_tokens || (input_tokens || 0) + (output_tokens || 0)\<close>.
\<close>

definition varchar :: "nat \<Rightarrow> string \<Rightarrow> bool" where
  "varchar n s = list_all (\<lambda>c. c = CHR '' '') (drop n s)"

definition numeric_10_6 :: "rat \<Rightarrow> rat" where
  "numeric_10_6 c = of_int \<lfloor>c * 1000000 + 1 / 2\<rfloor> / 1000000"

definition pg_integer :: "nat \<Rightarrow> bool" where
  "pg_integer n = (n \<le> 2147483647)"

definition finalTotalTokens :: "usage_body \<Rightarrow> nat" where
  "finalTotalTokens b =
     (if get 0 (b_total_tokens b) \<noteq> 0 then get 0 (b_total_tokens b)
      else get 0 (b_input_tokens b) + get 0 (b_output_tokens b))"

definition usage_events_accepts :: "int \<Rightarrow> usage_body \<Rightarrow> bool" where
  "usage_events_accepts now b =
     (varchar 255 (get [] (b_event_name b)) \<and> varchar 100 (get [] (b_vendor b)) \<and>
      varchar 100 (get [] (b_model b)) \<and>
      numeric_10_6 (get 0 (b_cost_amount b)) < 10000 \<and>
      varchar 3 (get ''USD'' (b_cost_currency b)) \<and>
      pg_integer (get 0 (b_input_tokens b)) \<and> pg_integer (get 0 (b_output_tokens b)) \<and>
      pg_integer (finalTotalTokens b) \<and>
      - 210866803200000 \<le> get now (b_event_timestamp b))"

definition mk_usage_event :: "int \<Rightarrow> nat \<Rightarrow> nat \<Rightarrow> usage_body \<Rightarrow> usage_event" where
  "mk_usage_event now uid agentUuid b =
     \<lparr>ue_user_id = uid, ue_agent_id = agentUuid,
      ue_event_name = take 255 (get [] (b_event_name b)),
      ue_model = map_option (take 100) (b_model b),
      ue_cost_amount = numeric_10_6 (get 0 (b_cost_amount b)),
      ue_request_hash = b_request_hash b,
      ue_event_timestamp = get now (b_event_timestamp b),
      ue_created_at = now\<rparr>"

text \<open>
  The handler of \<open>POST /record\<close>, entered after the middleware called \<open>next()\<close>;
  \<open>deferred\<close> is \<open>req.agentBudgetCheck === 'DEFERRED'\<close>. Every statement before the
  INSERT runs on the pool and is committed on its own, so an INSERT that the table
  refuses (the \<open>catch\<close> branch, 500) leaves an agent created or un-paused by the earlier
  steps as they made it; the cache is incremented only after the INSERT.
\<close>

definition record_handler ::
  "(int \<Rightarrow> nat) \<Rightarrow> int \<Rightarrow> nat \<Rightarrow> bool \<Rightarrow> usage_body \<Rightarrow> world \<Rightarrow> response \<times> world" where
  "record_handler month_of now uid deferred body w =
     (if \<not> usageEventSchema body then (Response 400 None, w)
      else
        (let ext = get [] (b_agent_id body);
             cost = get 0 (b_cost_amount body);
             (customerUuid, w0) = ensureCustomerExists uid (get [] (b_customer_id body)) w;
             (agentUuid, w1) = ensureAgentExists uid ext w0;
             (budget, w2) = (if deferred then checkAgentBudgetAfterCreation agentUuid cost uid w1
                             else (Inr None, w1))
         in case budget of
              Inl _ \<Rightarrow> (Response 500 None, w2)
            | Inr (Some c) \<Rightarrow> (Response 403 (Some c), w2)
            | Inr None \<Rightarrow>
                (let (isActive, w3) = checkAgentStatus now uid agentUuid w2
                 in if \<not> isActive then (Response 403 (Some ''AGENT_KILLED''), w3)
                    else if \<not> usage_events_accepts now body then (Response 500 None, w3)
                    else
                      (let w4 = w3\<lparr>usage_events :=
                                   usage_events w3 @ [mk_usage_event now uid agentUuid body]\<rparr>
                       in (Response 201 None, incrementAgentSpend w4 (month_of now) ext cost)))))"

definition record_route ::
  "(int \<Rightarrow> nat) \<Rightarrow> int \<Rightarrow> nat \<Rightarrow> usage_body \<Rightarrow> world \<Rightarrow> response \<times> world" where
  "record_route month_of now uid body w =
     (case enforceAgentBudget month_of now uid body w of
        (Respond r, w1) \<Rightarrow> (r, w1)
      | (NextDeferred, w1) \<Rightarrow> record_handler month_of now uid True body w1
      | (NextAgent a, w1) \<Rightarrow> record_handler month_of now uid False body w1)"






text \<open>A client sending one request after another, each at its own time.\<close>

fun record_all ::
  "(int \<Rightarrow> nat) \<Rightarrow> nat \<Rightarrow> (int \<times> usage_body) list \<Rightarrow> world \<Rightarrow> response list \<times> world" where
  "record_all month_of uid [] w = ([], w)"
| "record_all month_of uid (r # rs) w =
     (let (resp, w1) = record_route month_of (fst r) uid (snd r) w;
          (resps, w2) = record_all month_of uid rs w1
      in (resp # resps, w2))"

section \<open>Kill-switch control surface (routes/killswitch.js)\<close>

definition logKillSwitchEvent ::
  "string \<Rightarrow> string \<Rightarrow> string option \<Rightarrow> nat \<Rightarrow> string \<Rightarrow> string \<Rightarrow> world \<Rightarrow> world" where
  "logKillSwitchEvent eventType targetType targetId userId rsn triggeredBy w =
     w\<lparr>kill_switch_events := kill_switch_events w @
         [\<lparr>event_type = eventType, target_type = targetType, target_id = targetId,
           kse_user_id = userId, triggered_by = triggeredBy, reason = rsn\<rparr>]\<rparr>"

record stop_body =
  s_reason :: "string option"
  s_confirm :: "bool option"

text \<open>\<open>emergencyStopSchema\<close>: a reason of 1 to 1000 characters and \<open>confirm\<close> equal to true.\<close>

definition emergencyStopSchema :: "stop_body \<Rightarrow> bool" where
  "emergencyStopSchema b =
     ((case s_reason b of None \<Rightarrow> False | Some r \<Rightarrow> r \<noteq> [] \<and> length r \<le> 1000) \<and>
      s_confirm b = Some True)"

definition emergency_stop_all :: "int \<Rightarrow> nat \<Rightarrow> stop_body \<Rightarrow> world \<Rightarrow> response \<times> world" where
  "emergency_stop_all now uid body w =
     (if \<not> emergencyStopSchema body then (Response 400 None, w)
      else if s_confirm body \<noteq> Some True then (Response 400 None, w)
      else
        (let rsn = get [] (s_reason body);
             w1 = w\<lparr>gks := \<lparr>is_emergency_stopped = True, stopped_at = Some now,
                             stopped_by = Some uid, stop_reason = Some rsn\<rparr>\<rparr>;
             w2 = w1\<lparr>agents := map (\<lambda>a. if status a \<noteq> Killed
                                          then a\<lparr>status := Killed, killed_at := Some now,
                                                 killed_by := Some uid,
                                                 kill_reason := Some (''Emergency stop: '' @ rsn)\<rparr>
                                          else a) (agents w1)\<rparr>
         in (Response 200 None,
             logKillSwitchEvent ''emergency_stop_all'' ''global'' None uid rsn ''manual'' w2)))"

definition emergency_stop_disable :: "nat \<Rightarrow> world \<Rightarrow> response \<times> world" where
  "emergency_stop_disable uid w =
     (let w1 = w\<lparr>gks := \<lparr>is_emergency_stopped = False, stopped_at = None,
                          stopped_by = None, stop_reason = None\<rparr>\<rparr>
      in (Response 200 None,
          logKillSwitchEvent ''emergency_stop_disabled'' ''global'' None uid
            ''Emergency stop disabled'' ''manual'' w1))"

text \<open>\<open>killAgentSchema\<close>: a reason of 1 to 500 characters.\<close>

definition killAgentSchema :: "string option \<Rightarrow> bool" where
  "killAgentSchema r = (case r of None \<Rightarrow> False | Some s \<Rightarrow> s \<noteq> [] \<and> length s \<le> 500)"

text \<open>
  The three single-agent routes run one conditional UPDATE ... RETURNING and answer 404
  without logging when it returned no row.
\<close>

definition kill_agent :: "int \<Rightarrow> nat \<Rightarrow> string \<Rightarrow> string option \<Rightarrow> world \<Rightarrow> response \<times> world" where
  "kill_agent now uid agentId rsn w =
     (if \<not> killAgentSchema rsn then (Response 400 None, w)
      else
        (let hit = (\<lambda>a. user_id a = uid \<and> agent_id a = agentId \<and> status a \<noteq> Killed)
         in if filter hit (agents w) = [] then (Response 404 None, w)
            else
              (Response 200 None,
               logKillSwitchEvent ''kill_agent'' ''agent'' (Some agentId) uid (get [] rsn) ''manual''
                 (w\<lparr>agents := map (\<lambda>a. if hit a
                                         then a\<lparr>status := Killed, killed_at := Some now,
                                                killed_by := Some uid, kill_reason := rsn\<rparr>
                                         else a) (agents w)\<rparr>))))"

record pause_body =
  p_duration_minutes :: "int option"
  p_reason :: "string option"

definition pauseAgentSchema :: "pause_body \<Rightarrow> bool" where
  "pauseAgentSchema b =
     ((case p_duration_minutes b of None \<Rightarrow> False | Some d \<Rightarrow> 1 \<le> d \<and> d \<le> 10080) \<and>
      killAgentSchema (p_reason b))"

definition pause_agent :: "int \<Rightarrow> nat \<Rightarrow> string \<Rightarrow> pause_body \<Rightarrow> world \<Rightarrow> response \<times> world" where
  "pause_agent now uid agentId body w =
     (if \<not> pauseAgentSchema body then (Response 400 None, w)
      else
        (let pauseUntil = now + get 0 (p_duration_minutes body) * 60000;
             hit = (\<lambda>a. user_id a = uid \<and> agent_id a = agentId \<and> status a = Active)
         in if filter hit (agents w) = [] then (Response 404 None, w)
            else
              (Response 200 None,
               logKillSwitchEvent ''pause_agent'' ''agent'' (Some agentId) uid
                 (get [] (p_reason body)) ''manual''
                 (w\<lparr>agents := map (\<lambda>a. if hit a
                                         then a\<lparr>status := Paused, pause_until := Some pauseUntil,
                                                kill_reason := p_reason body\<rparr>
                                         else a) (agents w)\<rparr>))))"

text \<open>
  The revive route validates nothing and reads \<open>const { reason = 'Manual revival' } =
  req.body\<close>: the default stands in for an absent key only. A JSON null stays null,
  and the column \<open>kill_switch_events.reason\<close> is \<open>TEXT NOT NULL\<close>: the INSERT of the
  audit record then fails, after the UPDATE of the agent has been committed on its own,
  and the \<open>catch\<close> branch answers 500. (A value of another JSON type reaches the column
  as its text, like a string.)
\<close>

datatype revive_reason = ReasonAbsent | ReasonNull | ReasonText string

definition revive_agent :: "nat \<Rightarrow> string \<Rightarrow> revive_reason \<Rightarrow> world \<Rightarrow> response \<times> world" where
  "revive_agent uid agentId rsn w =
     (let hit = (\<lambda>a. user_id a = uid \<and> agent_id a = agentId \<and>
                      (status a = Killed \<or> status a = Paused))
      in if filter hit (agents w) = [] then (Response 404 None, w)
         else
           (let w1 = w\<lparr>agents := map (\<lambda>a. if hit a
                                           then a\<lparr>status := Active, pause_until := None,
                                                  kill_reason := None, killed_at := None,
                                                  killed_by := None\<rparr>
                                           else a) (agents w)\<rparr>
            in case rsn of
                 ReasonNull \<Rightarrow> (Response 500 None, w1)
               | ReasonAbsent \<Rightarrow>
                   (Response 200 None,
                    logKillSwitchEvent ''revive_agent'' ''agent'' (Some agentId) uid
                      ''Manual revival'' ''manual'' w1)
               | ReasonText r \<Rightarrow>
                   (Response 200 None,
                    logKillSwitchEvent ''revive_agent'' ''agent'' (Some agentId) uid
                      r ''manual'' w1)))"

text \<open>
  \<open>POST /kill-customer/:customerId\<close>: 404 when the user has no such customer. The
  UPDATE takes the agents of the user that the subquery returns, and the subquery joins
  \<open>agents\<close> to \<open>customers\<close> on \<open>user_id\<close> alone: every agent of the customer's user
  that is not killed. One audit record is written whatever the number of rows.
\<close>

definition kill_customer :: "int \<Rightarrow> nat \<Rightarrow> string \<Rightarrow> string option \<Rightarrow> world \<Rightarrow> response \<times> world" where
  "kill_customer now uid customerId rsn w =
     (if \<not> killAgentSchema rsn then (Response 400 None, w)
      else
        (case find (\<lambda>c. c_user_id c = uid \<and> c_customer_id c = customerId) (customers w) of
           None \<Rightarrow> (Response 404 None, w)
         | Some c \<Rightarrow>
             (let hit = (\<lambda>a. user_id a = uid \<and>
                              list_ex (\<lambda>c'. c_uuid c' = c_uuid c \<and> c_user_id c' = user_id a)
                                (customers w) \<and>
                              status a \<noteq> Killed)
              in (Response 200 None,
                  logKillSwitchEvent ''kill_customer'' ''customer'' (Some customerId) uid
                    (get [] rsn) ''manual''
                    (w\<lparr>agents := map (\<lambda>a. if hit a
                                            then a\<lparr>status := Killed, killed_at := Some now,
                                                   killed_by := Some uid, kill_reason := rsn\<rparr>
                                            else a) (agents w)\<rparr>)))))"

section \<open>Trigger evaluator (services/kill-switch-monitor.js)\<close>

record trigger =
  t_user_id :: nat
  t_trigger_type :: string
  t_trigger_name :: string
  t_threshold_value :: string

record violation =
  v_agent_id :: string
  v_agent_uuid :: nat

text \<open>
  \<open>triggerAutoKill\<close> runs the conditional UPDATE (\<open>WHERE id = $2 AND status = 'active'\<close>)
  and then the INSERT into \<open>kill_switch_events\<close>; the INSERT does not depend on the
  UPDATE having changed a row.
\<close>

definition auto_kill_reason :: "trigger \<Rightarrow> string" where
  "auto_kill_reason t =
     ''Auto-kill triggered: '' @ t_trigger_name t @ '' ('' @ t_trigger_type t @
     '') exceeded threshold of '' @ t_threshold_value t"

definition triggerAutoKill :: "int \<Rightarrow> trigger \<Rightarrow> violation \<Rightarrow> world \<Rightarrow> world" where
  "triggerAutoKill now t v w =
     logKillSwitchEvent ''kill_agent'' ''agent'' (Some (v_agent_id v)) (t_user_id t)
       (auto_kill_reason t) (''auto_'' @ t_trigger_type t)
       (w\<lparr>agents := map (\<lambda>a. if uuid a = v_agent_uuid v \<and> status a = Active
                               then a\<lparr>status := Killed, killed_at := Some now,
                                      kill_reason := Some (auto_kill_reason t)\<rparr>
                               else a) (agents w)\<rparr>)"

text \<open>
  The loop-detection query. \<open>loop_rows\<close> are the joined rows of \<open>usage_events\<close> and
  \<open>agents\<close> that pass the WHERE clause (created in the last 10 minutes, agent active,
  \<open>request_hash\<close> present); \<open>loop_key\<close> is the GROUP BY key; a group is kept when
  \<open>COUNT( * ) >= 50\<close>. The count reaches JavaScript as a decimal string.
\<close>

type_synonym loop_key = "nat \<times> string \<times> string \<times> string option \<times> string option"

definition loop_rows :: "int \<Rightarrow> world \<Rightarrow> (usage_event \<times> agent) list" where
  "loop_rows now w =
     concat (map (\<lambda>e. map (\<lambda>a. (e, a))
                         (filter (\<lambda>a. ue_agent_id e = uuid a \<and> status a = Active) (agents w)))
       (filter (\<lambda>e. ue_created_at e \<ge> now - 600000 \<and> ue_request_hash e \<noteq> None)
          (usage_events w)))"

definition loop_key :: "usage_event \<times> agent \<Rightarrow> loop_key" where
  "loop_key r = (ue_agent_id (fst r), agent_id (snd r), ue_event_name (fst r),
                 ue_model (fst r), ue_request_hash (fst r))"

definition identical_requests :: "int \<Rightarrow> world \<Rightarrow> loop_key \<Rightarrow> nat" where
  "identical_requests now w k = length (filter (\<lambda>r. loop_key r = k) (loop_rows now w))"

definition request_patterns :: "int \<Rightarrow> world \<Rightarrow> loop_key list" where
  "request_patterns now w =
     filter (\<lambda>k. identical_requests now w k \<ge> 50) (remdups (map loop_key (loop_rows now w)))"

fun show_nat :: "nat \<Rightarrow> string" where
  "show_nat n =
     (if n < 10 then [char_of (48 + n)]
      else show_nat (n div 10) @ [char_of (48 + n mod 10)])"

declare show_nat.simps [simp del]

definition loops :: "int \<Rightarrow> world \<Rightarrow> (trigger \<times> violation) list" where
  "loops now w =
     concat (map (\<lambda>k. map (\<lambda>a. (\<lparr>t_user_id = user_id a, t_trigger_type = ''infinite_loop'',
                                   t_trigger_name = ''Auto Loop Detection'',
                                   t_threshold_value = show_nat (identical_requests now w k)\<rparr>,
                                  \<lparr>v_agent_id = fst (snd k), v_agent_uuid = fst k\<rparr>))
                         (filter (\<lambda>a. uuid a = fst k) (agents w)))
       (request_patterns now w))"

definition checkInfiniteLoops :: "int \<Rightarrow> world \<Rightarrow> world" where
  "checkInfiniteLoops now w =
     foldl (\<lambda>w' (t, v). triggerAutoKill now t v w') w (loops now w)"

text \<open>
  Row-wise reading of the evaluator: what the UPDATE of \<open>triggerAutoKill\<close> does to one
  row, and what a whole run of kills does to it.
\<close>

definition auto_kill_row :: "int \<Rightarrow> trigger \<Rightarrow> violation \<Rightarrow> agent \<Rightarrow> agent" where
  "auto_kill_row now t v a =
     (if uuid a = v_agent_uuid v \<and> status a = Active
      then a\<lparr>status := Killed, killed_at := Some now, kill_reason := Some (auto_kill_reason t)\<rparr>
      else a)"

definition loop_check_row :: "int \<Rightarrow> (trigger \<times> violation) list \<Rightarrow> agent \<Rightarrow> agent" where
  "loop_check_row now rows a = foldl (\<lambda>a' (t, v). auto_kill_row now t v a') a rows"

text \<open>
  Scheduling. \<open>start\<close> is guarded by \<open>isRunning\<close>; it calls \<open>performMonitoringChecks\<close>
  once and installs the interval. The interval's callback calls
  \<open>performMonitoringChecks\<close> and does not wait for it. \<open>ticks_running\<close> counts the calls
  of \<open>performMonitoringChecks\<close> whose promise has not settled yet; it is bookkeeping of
  the model, the source keeps no such counter.
\<close>

record monitor =
  isRunning :: bool
  monitoringInterval :: bool
  ticks_running :: nat

datatype monitor_event = Start | Stop | IntervalFires | TickSettles

definition new_monitor :: monitor where
  "new_monitor = \<lparr>isRunning = False, monitoringInterval = False, ticks_running = 0\<rparr>"

fun monitor_step :: "monitor \<Rightarrow> monitor_event \<Rightarrow> monitor" where
  "monitor_step m Start =
     (if isRunning m then m
      else m\<lparr>isRunning := True, ticks_running := ticks_running m + 1,
             monitoringInterval := True\<rparr>)"
| "monitor_step m Stop = m\<lparr>monitoringInterval := False, isRunning := False\<rparr>"
| "monitor_step m IntervalFires =
     (if monitoringInterval m then m\<lparr>ticks_running := ticks_running m + 1\<rparr> else m)"
| "monitor_step m TickSettles = m\<lparr>ticks_running := ticks_running m - 1\<rparr>"

definition monitor_run :: "monitor_event list \<Rightarrow> monitor" where
  "monitor_run evs = foldl monitor_step new_monitor evs"

section \<open>Predicates of the statements\<close>

text \<open>
  \<open>same_request\<close>: a ledger event of agent \<open>aid\<close> inside the 10-minute window with the
  given event name, model and (present) request hash, the columns the loop query groups
  by. \<open>inactive\<close>: what \<open>is_agent_active\<close> turns down, read off the state: the global
  stop is set, or the agent's row is killed, or it is paused with no expiry or with one
  still ahead.
\<close>

definition same_request ::
  "int \<Rightarrow> nat \<Rightarrow> string \<Rightarrow> string option \<Rightarrow> string option \<Rightarrow> usage_event \<Rightarrow> bool" where
  "same_request now aid n m h e =
     (ue_agent_id e = aid \<and> ue_event_name e = n \<and> ue_model e = m \<and> ue_request_hash e = h
      \<and> h \<noteq> None \<and> now - 600000 \<le> ue_created_at e)"

definition inactive :: "int \<Rightarrow> nat \<Rightarrow> string \<Rightarrow> world \<Rightarrow> bool" where
  "inactive now uid ext w =
     (is_emergency_stopped (gks w) \<or>
      (case find_agent uid ext (agents w) of
         None \<Rightarrow> False
       | Some a \<Rightarrow> status a = Killed \<or>
                  (status a = Paused \<and> (case pause_until a of None \<Rightarrow> True | Some t \<Rightarrow> now < t))))"

text \<open>
  \<open>transitions\<close>: the number of agent rows whose status differs between two states of
  the table (rows are never deleted or reordered). \<open>audit\<close>: an audit record, with the
  arguments in the order of \<open>logKillSwitchEvent\<close>.
\<close>

definition transitions :: "agent list \<Rightarrow> agent list \<Rightarrow> nat" where
  "transitions before after =
     length (filter (\<lambda>(a, a'). status a \<noteq> status a') (zip before after))"

definition audit ::
  "string \<Rightarrow> string \<Rightarrow> string option \<Rightarrow> nat \<Rightarrow> string \<Rightarrow> string \<Rightarrow> kill_switch_event" where
  "audit eventType targetType targetId userId rsn triggeredBy =
     \<lparr>event_type = eventType, target_type = targetType, target_id = targetId,
      kse_user_id = userId, triggered_by = triggeredBy, reason = rsn\<rparr>"

text \<open>
  \<open>identifiers_fit\<close>: the external customer and agent identifiers of a request are at
  most 255 characters long, so the INSERT statements of \<open>ensureCustomerExists\<close> and
  \<open>ensureAgentExists\<close> take them.
\<close>

definition identifiers_fit :: "usage_body \<Rightarrow> bool" where
  "identifiers_fit b =
     (length (get [] (b_customer_id b)) \<le> 255 \<and> length (get [] (b_agent_id b)) \<le> 255)"

section \<open>Scenario data\<close>

text \<open>
  Agent X of user 1 with a monthly limit of 10 and nothing spent, an otherwise empty
  system, and a valid request of X with a chosen cost. \<open>month_30d\<close> is a calendar of
  30-day months for the closed examples.
\<close>

definition agent_X :: agent where
  "agent_X = \<lparr>uuid = 1, user_id = 1, agent_id = ''X'', status = Active, kill_reason = None,
      killed_at = None, killed_by = None, pause_until = None, is_suspended = False,
      monthly_cost_limit = Some 10\<rparr>"

definition world_0 :: world where
  "world_0 = \<lparr>customers = [], agents = [agent_X], usage_events = [], kill_switch_events = [],
     gks = \<lparr>is_emergency_stopped = False, stopped_at = None, stopped_by = None,
            stop_reason = None\<rparr>,
     redis_up = True, agent_spend = (\<lambda>_. None)\<rparr>"

definition request_X :: "rat option \<Rightarrow> usage_body" where
  "request_X c = \<lparr>b_event_name = Some ''completion'', b_agent_id = Some ''X'',
     b_customer_id = Some ''acme'', b_vendor = Some ''openai'', b_model = None,
     b_cost_amount = c, b_cost_currency = None, b_input_tokens = None,
     b_output_tokens = None, b_total_tokens = None, b_request_hash = None,
     b_event_timestamp = None\<rparr>"

definition after_request_1 :: "(int \<Rightarrow> nat) \<Rightarrow> int \<Rightarrow> world" where
  "after_request_1 month_of t1 = snd (record_route month_of t1 1 (request_X (Some 6)) world_0)"

definition after_request_2 :: "(int \<Rightarrow> nat) \<Rightarrow> int \<Rightarrow> int \<Rightarrow> world" where
  "after_request_2 month_of t1 t2 =
     snd (record_route month_of t2 1 (request_X (Some 6)) (after_request_1 month_of t1))"

definition month_30d :: "int \<Rightarrow> nat" where
  "month_30d t = nat (t div 2592000000)"


definition event_X6 :: usage_event where
  "event_X6 = \<lparr>ue_user_id = 1, ue_agent_id = 1, ue_event_name = ''completion'', ue_model = None,
     ue_cost_amount = 6, ue_request_hash = None, ue_event_timestamp = 1000, ue_created_at = 1000\<rparr>"

definition world_cache_missing :: world where
  "world_cache_missing = world_0\<lparr>usage_events := [event_X6]\<rparr>"

definition world_cache_zero :: world where
  "world_cache_zero = world_0\<lparr>usage_events := [event_X6],
      agent_spend := (\<lambda>_. None)((month_30d 2000, ''X'') \<mapsto> 0)\<rparr>"

definition world_cache_five :: world where
  "world_cache_five = world_0\<lparr>agent_spend := (\<lambda>_. None)((month_30d 1000, ''X'') \<mapsto> 5)\<rparr>"

definition world_redis_down :: world where
  "world_redis_down = world_0\<lparr>redis_up := False\<rparr>"

definition agent_paused :: "int \<Rightarrow> agent" where
  "agent_paused t = agent_X\<lparr>status := Paused, pause_until := Some t, monthly_cost_limit := None\<rparr>"

definition world_paused :: "int \<Rightarrow> world" where
  "world_paused t = world_0\<lparr>agents := [agent_paused t]\<rparr>"

definition world_paused_limited :: "int \<Rightarrow> world" where
  "world_paused_limited t = world_0\<lparr>agents := [agent_X\<lparr>status := Paused, pause_until := Some t\<rparr>]\<rparr>"

definition world_killed_suspended :: world where
  "world_killed_suspended =
     world_0\<lparr>agents := [agent_X\<lparr>status := Killed, is_suspended := True,
                                 kill_reason := Some ''runaway''\<rparr>]\<rparr>"

text \<open>
  Bodies of the emergency stop with and without confirmation; agent X already killed;
  a second active agent Y of the same user, who has the customer acme;
  the evaluator's loop trigger and a violation naming X; ledger events of X carrying a
  request hash, \<open>k\<close> of them identical, 50 split over two models, 50 of a paused X, and
  two groups of 50; a batch naming a new agent Y and then X, as a list of events and
  as the body \<open>{events: [...]}\<close> of a request; the body of a batch of one event of X.
\<close>

definition stop_confirmed :: stop_body where
  "stop_confirmed = \<lparr>s_reason = Some ''incident'', s_confirm = Some True\<rparr>"

definition stop_unconfirmed :: stop_body where
  "stop_unconfirmed = \<lparr>s_reason = Some ''incident'', s_confirm = None\<rparr>"

definition world_killed :: world where
  "world_killed = world_0\<lparr>agents := [agent_X\<lparr>status := Killed, kill_reason := Some ''runaway''\<rparr>]\<rparr>"

definition agent_Y :: agent where
  "agent_Y = agent_X\<lparr>uuid := 2, agent_id := ''Y'', monthly_cost_limit := None\<rparr>"

definition world_two_agents :: world where
  "world_two_agents =
     world_0\<lparr>customers := [\<lparr>c_uuid = 1, c_user_id = 1, c_customer_id = ''acme''\<rparr>],
             agents := [agent_X, agent_Y]\<rparr>"

definition loop_trigger :: trigger where
  "loop_trigger = \<lparr>t_user_id = 1, t_trigger_type = ''infinite_loop'',
     t_trigger_name = ''Auto Loop Detection'', t_threshold_value = ''50''\<rparr>"

definition violation_X :: violation where
  "violation_X = \<lparr>v_agent_id = ''X'', v_agent_uuid = 1\<rparr>"

definition loop_event :: "string \<Rightarrow> string option \<Rightarrow> usage_event" where
  "loop_event h m = \<lparr>ue_user_id = 1, ue_agent_id = 1, ue_event_name = ''completion'', ue_model = m,
     ue_cost_amount = 1, ue_request_hash = Some h, ue_event_timestamp = 1000, ue_created_at = 1000\<rparr>"

definition world_loop :: "nat \<Rightarrow> world" where
  "world_loop k = world_0\<lparr>usage_events := replicate k (loop_event ''h1'' None)\<rparr>"

definition world_split_loop :: world where
  "world_split_loop = world_0\<lparr>usage_events :=
      replicate 25 (loop_event ''h1'' (Some ''gpt-4''))
      @ replicate 25 (loop_event ''h1'' (Some ''gpt-3.5''))\<rparr>"

definition world_paused_loop :: world where
  "world_paused_loop = world_0\<lparr>agents := [agent_X\<lparr>status := Paused, pause_until := Some 9000000\<rparr>],
      usage_events := replicate 50 (loop_event ''h1'' None)\<rparr>"

definition world_two_loops :: world where
  "world_two_loops = world_0\<lparr>usage_events :=
      replicate 50 (loop_event ''h1'' None) @ replicate 50 (loop_event ''h2'' None)\<rparr>"




section \<open>Properties\<close>

lemmas route_defs = record_route_def enforceAgentBudget_def
  find_agent_def current_spend_def getAgentSpend_def incrementAgentSpend_def
  ledger_month_spend_def record_handler_def usageEventSchema_def required_string_def
  optional_string_def optional_count_def MAX_SAFE_INTEGER_def
  ensureCustomerExists_def ensureAgentExists_def checkAgentStatus_def is_agent_active_def
  usage_events_accepts_def varchar_def pg_integer_def finalTotalTokens_def
  mk_usage_event_def get_def
  set_suspended_def checkAgentBudgetAfterCreation_def Let_def

lemmas scenario_defs = agent_X_def world_0_def request_X_def

subsection \<open>Column values\<close>

lemma numeric_10_6_of_int: "numeric_10_6 (of_int n) = of_int n"
proof -
  have "\<lfloor>(of_int n :: rat) * 1000000 + 1 / 2\<rfloor> = n * 1000000"
    by (rule floor_unique) simp_all
  then show ?thesis by (simp add: numeric_10_6_def)
qed

lemma numeric_10_6_numeral [simp]: "numeric_10_6 (numeral k) = numeral k"
  using numeric_10_6_of_int [of "numeral k"] by simp

lemma request_X_valid:
  "0 < c \<Longrightarrow> c \<le> 9007199254740991 \<Longrightarrow> usageEventSchema (request_X (Some c))"
  by (simp add: request_X_def usageEventSchema_def required_string_def optional_string_def
      optional_count_def MAX_SAFE_INTEGER_def)

lemma request_X_fits: "identifiers_fit (request_X c)"
  by (simp add: request_X_def identifiers_fit_def get_def)

lemma request_X_accepted:
  "numeric_10_6 c < 10000 \<Longrightarrow> 0 \<le> now \<Longrightarrow> usage_events_accepts now (request_X (Some c))"
  by (simp add: request_X_def usage_events_accepts_def varchar_def pg_integer_def
      finalTotalTokens_def get_def)

subsection \<open>The scenario's worlds\<close>

lemma after_request_1_eq:
  "0 \<le> t1 \<Longrightarrow>
   after_request_1 m t1 =
     world_0\<lparr>customers := [\<lparr>c_uuid = 1, c_user_id = 1, c_customer_id = ''acme''\<rparr>],
             usage_events := [mk_usage_event t1 1 1 (request_X (Some 6))],
             agent_spend := (\<lambda>_. None)((m t1, ''X'') \<mapsto> 6)\<rparr>"
  by (simp add: after_request_1_def scenario_defs route_defs)

lemma after_request_2_eq:
  "0 \<le> t1 \<Longrightarrow> m t2 = m t1 \<Longrightarrow>
   after_request_2 m t1 t2 = (after_request_1 m t1)\<lparr>agents := [agent_X\<lparr>is_suspended := True\<rparr>]\<rparr>"
  by (simp add: after_request_2_def after_request_1_eq scenario_defs route_defs)

subsection \<open>What the request path leaves alone\<close>

lemma increment_frame [simp]:
  "agents (incrementAgentSpend w m e c) = agents w"
  "usage_events (incrementAgentSpend w m e c) = usage_events w"
  "gks (incrementAgentSpend w m e c) = gks w"
  "kill_switch_events (incrementAgentSpend w m e c) = kill_switch_events w"
  "customers (incrementAgentSpend w m e c) = customers w"
  "redis_up (incrementAgentSpend w m e c) = redis_up w"
  by (simp_all add: incrementAgentSpend_def)

lemma ensureCustomer_frame [simp]:
  "agents (snd (ensureCustomerExists uid c w)) = agents w"
  "usage_events (snd (ensureCustomerExists uid c w)) = usage_events w"
  "gks (snd (ensureCustomerExists uid c w)) = gks w"
  "kill_switch_events (snd (ensureCustomerExists uid c w)) = kill_switch_events w"
  "redis_up (snd (ensureCustomerExists uid c w)) = redis_up w"
  "agent_spend (snd (ensureCustomerExists uid c w)) = agent_spend w"
  by (simp_all add: ensureCustomerExists_def Let_def split: option.splits)

lemma current_spend_frame [simp]:
  "agents (snd (current_spend m now a w)) = agents w"
  "usage_events (snd (current_spend m now a w)) = usage_events w"
  "gks (snd (current_spend m now a w)) = gks w"
  "kill_switch_events (snd (current_spend m now a w)) = kill_switch_events w"
  by (simp_all add: current_spend_def incrementAgentSpend_def Let_def)

lemma enforce_frame [simp]:
  "usage_events (snd (enforceAgentBudget m now uid body w)) = usage_events w"
  "gks (snd (enforceAgentBudget m now uid body w)) = gks w"
  "kill_switch_events (snd (enforceAgentBudget m now uid body w)) = kill_switch_events w"
  by (simp_all add: enforceAgentBudget_def Let_def split_def split: option.splits)

lemma enforce_NextAgent:
  assumes "fst (enforceAgentBudget m now uid body w) = NextAgent a"
  shows "\<exists>ext. b_agent_id body = Some ext \<and> ext \<noteq> [] \<and> find_agent uid ext (agents w) = Some a
           \<and> \<not> is_suspended a"
    and "agents (snd (enforceAgentBudget m now uid body w)) = agents w"
  using assms
  by (auto simp add: enforceAgentBudget_def Let_def split_def split: option.splits if_splits)



lemma ensure_frame [simp]:
  "usage_events (snd (ensureAgentExists uid ext w)) = usage_events w"
  "gks (snd (ensureAgentExists uid ext w)) = gks w"
  "kill_switch_events (snd (ensureAgentExists uid ext w)) = kill_switch_events w"
  by (simp_all add: ensureAgentExists_def Let_def split: option.splits)

lemma find_SomeD: "find P xs = Some x \<Longrightarrow> x \<in> set xs \<and> P x"
  by (induction xs) (auto split: if_splits)

lemma new_agent_fields [simp]:
  "uuid (new_agent i u e) = i" "user_id (new_agent i u e) = u" "agent_id (new_agent i u e) = e"
  "status (new_agent i u e) = Active" "is_suspended (new_agent i u e) = False"
  "monthly_cost_limit (new_agent i u e) = None" "pause_until (new_agent i u e) = None"
  by (simp_all add: new_agent_def)


lemma after_creation_frame [simp]:
  "usage_events (snd (checkAgentBudgetAfterCreation i c uid w)) = usage_events w"
  "gks (snd (checkAgentBudgetAfterCreation i c uid w)) = gks w"
  by (simp_all add: checkAgentBudgetAfterCreation_def split: option.splits)


lemma find_uuid_distinct:
  "distinct (map uuid ags) \<Longrightarrow> a \<in> set ags \<Longrightarrow> P a \<Longrightarrow>
   find (\<lambda>r. uuid r = uuid a \<and> P r) ags = Some a"
  by (induction ags) (auto simp add: image_iff)

lemma find_map_preserve:
  "(\<And>x. P (f x) = P x) \<Longrightarrow> find P (map f xs) = map_option f (find P xs)"
  by (induction xs) auto

lemma ensure_find_agent:
  "ensureAgentExists uid ext w =
     (case find_agent uid ext (agents w) of
        None \<Rightarrow> (fresh_uuid (agents w),
                 w\<lparr>agents := agents w @ [new_agent (fresh_uuid (agents w)) uid ext]\<rparr>)
      | Some a \<Rightarrow> (uuid a, w))"
  by (simp add: ensureAgentExists_def find_agent_def Let_def conj_commute split: option.splits)

lemma find_agent_unpause:
  "find_agent uid ext (unpause i ags) =
     map_option (\<lambda>a. if uuid a = i then a\<lparr>status := Active, pause_until := None\<rparr> else a)
       (find_agent uid ext ags)"
  unfolding find_agent_def unpause_def
  by (rule find_map_preserve) simp

lemma find_agent_set_suspended:
  "find_agent uid ext (set_suspended i ags) =
     map_option (\<lambda>a. if uuid a = i then a\<lparr>is_suspended := True\<rparr> else a)
       (find_agent uid ext ags)"
  unfolding find_agent_def set_suspended_def
  by (rule find_map_preserve) simp

lemma status_set_suspended: "map status (set_suspended i ags) = map status ags"
  by (induction ags) (simp_all add: set_suspended_def)

lemma active_check:
  assumes "\<not> is_emergency_stopped (gks w)" "distinct (map uuid (agents w))"
    and "a \<in> set (agents w)" "user_id a = uid" "status a = Active"
  shows "is_agent_active now (uuid a) uid w = (True, w)"
proof -
  have f: "find (\<lambda>r. uuid r = uuid a \<and> user_id r = uid) (agents w) = Some a"
    using find_uuid_distinct [OF assms(2,3), of "\<lambda>r. user_id r = uid"] assms(4) by simp
  show ?thesis using assms f by (simp add: is_agent_active_def)
qed

lemma paused_check:
  assumes "\<not> is_emergency_stopped (gks w)" "distinct (map uuid (agents w))"
    and "a \<in> set (agents w)" "user_id a = uid" "status a = Paused" "pause_until a = Some t"
  shows "now < t \<Longrightarrow> is_agent_active now (uuid a) uid w = (False, w)"
    and "t \<le> now \<Longrightarrow>
         is_agent_active now (uuid a) uid w = (True, w\<lparr>agents := unpause (uuid a) (agents w)\<rparr>)"
proof -
  have f: "find (\<lambda>r. uuid r = uuid a \<and> user_id r = uid) (agents w) = Some a"
    using find_uuid_distinct [OF assms(2,3), of "\<lambda>r. user_id r = uid"] assms(4) by simp
  show "now < t \<Longrightarrow> is_agent_active now (uuid a) uid w = (False, w)"
    using assms f by (simp add: is_agent_active_def)
  show "t \<le> now \<Longrightarrow>
         is_agent_active now (uuid a) uid w = (True, w\<lparr>agents := unpause (uuid a) (agents w)\<rparr>)"
    using assms f by (simp add: is_agent_active_def)
qed

lemma suspended_denied:
  assumes "find_agent uid ext (agents w) = Some a" "is_suspended a" "ext \<noteq> []"
    and "b_agent_id body = Some ext"
  shows "record_route month_of now uid body w = (Response 403 (Some ''AGENT_SUSPENDED''), w)"
  using assms by (simp add: record_route_def enforceAgentBudget_def)

lemma suspended_denied_all:
  assumes "find_agent uid ext (agents w) = Some a" "is_suspended a" "ext \<noteq> []"
    and "\<forall>r \<in> set reqs. b_agent_id (snd r) = Some ext"
  shows "record_all month_of uid reqs w
           = (replicate (length reqs) (Response 403 (Some ''AGENT_SUSPENDED'')), w)"
  using assms(4)
proof (induction reqs)
  case Nil
  then show ?case by simp
next
  case (Cons r rs)
  have "record_route month_of (fst r) uid (snd r) w = (Response 403 (Some ''AGENT_SUSPENDED''), w)"
    using Cons.prems by (intro suspended_denied [OF assms(1-3)]) simp
  moreover have "record_all month_of uid rs w
           = (replicate (length rs) (Response 403 (Some ''AGENT_SUSPENDED'')), w)"
    using Cons by simp
  ultimately show ?case by simp
qed

text \<open>
  The handler on a valid request that names an existing agent and was not deferred:
  everything hangs on the answer of \<open>is_agent_active\<close> and on the table taking the row.
\<close>

lemma handler_existing:
  assumes "usageEventSchema body" "b_agent_id body = Some ext"
    and "find_agent uid ext (agents w) = Some a"
    and "is_agent_active now (uuid a) uid
           (snd (ensureCustomerExists uid (get [] (b_customer_id body)) w)) = (act, w3)"
  shows "record_handler month_of now uid False body w =
           (if \<not> act then (Response 403 (Some ''AGENT_KILLED''), w3)
            else if \<not> usage_events_accepts now body then (Response 500 None, w3)
            else (Response 201 None,
                  incrementAgentSpend
                    (w3\<lparr>usage_events := usage_events w3 @ [mk_usage_event now uid (uuid a) body]\<rparr>)
                    (month_of now) ext (get 0 (b_cost_amount body))))"
proof -
  let ?w0 = "snd (ensureCustomerExists uid (get [] (b_customer_id body)) w)"
  have ens: "ensureAgentExists uid ext ?w0 = (uuid a, ?w0)"
    using assms(3) by (simp add: ensure_find_agent)
  have g: "get [] (b_agent_id body) = ext" using assms(2) by (simp add: get_def)
  show ?thesis
    using assms(1,4) ens
    by (simp add: record_handler_def g split_def Let_def checkAgentStatus_def)
qed


subsection \<open>The budget scenario\<close>

text \<open>
  C2 (as amended). Take any agent that is active and not suspended, with a monthly
  limit of 10, whose spend for the month reads 0 both in the cache and in the ledger
  (global stop off, Redis reachable, unique ids). A first valid request costing 6, whose
  identifiers fit and whose values the ledger accepts, is recorded (201). A second
  request costing 6 in the same month is refused with 403 BUDGET_LIMIT_EXCEEDED; the
  refusal sets the agent's \<open>is_suspended\<close> flag and changes no agent's status. A third
  request naming the agent, whatever its cost and time, is refused with 403
  AGENT_SUSPENDED and changes nothing.
\<close>

theorem C2_budget_scenario:
  assumes "\<not> is_emergency_stopped (gks w)"
    and "redis_up w"
    and "distinct (map uuid (agents w))"
    and "find_agent uid ext (agents w) = Some a"
    and "status a = Active"
    and "\<not> is_suspended a"
    and "monthly_cost_limit a = Some 10"
    and "getAgentSpend w (month_of t1) ext = 0"
    and "ledger_month_spend month_of t1 w (uuid a) = 0"
    and "usageEventSchema b1" "identifiers_fit b1" "usage_events_accepts t1 b1"
    and "b_agent_id b1 = Some ext" "b_cost_amount b1 = Some 6"
    and "b_agent_id b2 = Some ext" "b_cost_amount b2 = Some 6"
    and "month_of t2 = month_of t1"
    and "b_agent_id b3 = Some ext"
  shows "(let w1 = snd (record_route month_of t1 uid b1 w);
              w2 = snd (record_route month_of t2 uid b2 w1)
          in fst (record_route month_of t1 uid b1 w) = Response 201 None
           \<and> fst (record_route month_of t2 uid b2 w1) = Response 403 (Some ''BUDGET_LIMIT_EXCEEDED'')
           \<and> find_agent uid ext (agents w2) = Some (a\<lparr>is_suspended := True\<rparr>)
           \<and> map status (agents w2) = map status (agents w)
           \<and> record_route month_of t3 uid b3 w2 = (Response 403 (Some ''AGENT_SUSPENDED''), w2))"
proof -
  let ?w0 = "snd (ensureCustomerExists uid (get [] (b_customer_id b1)) w)"
  let ?w1 = "incrementAgentSpend
               (?w0\<lparr>usage_events := usage_events ?w0 @ [mk_usage_event t1 uid (uuid a) b1]\<rparr>)
               (month_of t1) ext 6"
  let ?w2 = "?w1\<lparr>agents := set_suspended (uuid a) (agents ?w1)\<rparr>"
  have ext: "ext \<noteq> []"
    using assms(10,13) by (simp add: usageEventSchema_def required_string_def)
  have mem: "a \<in> set (agents w)" "user_id a = uid" "agent_id a = ext"
    using find_SomeD [OF assms(4) [unfolded find_agent_def]] by simp_all
  have cs: "current_spend month_of t1 a w = (0, w)"
    using assms(8,9) mem(3) by (simp add: current_spend_def)
  have gate1: "enforceAgentBudget month_of t1 uid b1 w = (NextAgent a, w)"
    using assms(4,6,7,13,14) ext cs by (simp add: enforceAgentBudget_def)
  have act: "is_agent_active t1 (uuid a) uid ?w0 = (True, ?w0)"
    by (rule active_check) (simp_all add: assms(1,3,5) mem)
  have h1: "record_handler month_of t1 uid False b1 w = (Response 201 None, ?w1)"
    using handler_existing [OF assms(10,13,4) act, of month_of] assms(12,14)
    by (simp add: get_def)
  have r1: "record_route month_of t1 uid b1 w = (Response 201 None, ?w1)"
    by (simp add: record_route_def gate1 h1)
  have ag1: "agents ?w1 = agents w" by simp
  have sp1: "getAgentSpend ?w1 (month_of t2) ext = 6"
    using assms(2,8,17)
    by (simp add: getAgentSpend_def incrementAgentSpend_def split: option.splits)
  have cs2: "current_spend month_of t2 a ?w1 = (6, ?w1)"
    using sp1 mem(3) by (simp add: current_spend_def)
  have gate2: "enforceAgentBudget month_of t2 uid b2 ?w1
                 = (Respond (Response 403 (Some ''BUDGET_LIMIT_EXCEEDED'')), ?w2)"
    using assms(4,6,7,15,16) ext cs2 ag1 by (simp add: enforceAgentBudget_def)
  have r2: "record_route month_of t2 uid b2 ?w1 = (Response 403 (Some ''BUDGET_LIMIT_EXCEEDED''), ?w2)"
    unfolding record_route_def gate2 by simp
  have f2: "find_agent uid ext (agents ?w2) = Some (a\<lparr>is_suspended := True\<rparr>)"
    using assms(4) ag1 by (simp add: find_agent_set_suspended)
  have r3: "record_route month_of t3 uid b3 ?w2 = (Response 403 (Some ''AGENT_SUSPENDED''), ?w2)"
    by (rule suspended_denied [OF f2 _ ext assms(18)]) simp
  have st2: "map status (agents ?w2) = map status (agents w)"
    by (simp add: status_set_suspended)
  show ?thesis
    unfolding Let_def r1 r2 snd_conv fst_conv
    using f2 st2 r3 by simp
qed

theorem C2_budget_scenario_witness:
  "find_agent 1 ''X'' (agents world_0) = Some agent_X
   \<and> status agent_X = Active
   \<and> monthly_cost_limit agent_X = Some 10
   \<and> getAgentSpend world_0 (month_30d 1000) ''X'' = 0
   \<and> ledger_month_spend month_30d 1000 world_0 (uuid agent_X) = 0
   \<and> usageEventSchema (request_X (Some 6))
   \<and> usage_events_accepts 1000 (request_X (Some 6))
   \<and> month_30d 2000 = month_30d 1000
   \<and> fst (record_route month_30d 1000 1 (request_X (Some 6)) world_0) = Response 201 None
   \<and> fst (record_route month_30d 2000 1 (request_X (Some 6)) (after_request_1 month_30d 1000))
       = Response 403 (Some ''BUDGET_LIMIT_EXCEEDED'')
   \<and> find_agent 1 ''X'' (agents (after_request_2 month_30d 1000 2000))
       = Some (agent_X\<lparr>is_suspended := True\<rparr>)
   \<and> map status (agents (after_request_2 month_30d 1000 2000)) = [Active]
   \<and> record_route month_30d 3000 1 (request_X (Some 1)) (after_request_2 month_30d 1000 2000)
       = (Response 403 (Some ''AGENT_SUSPENDED''), after_request_2 month_30d 1000 2000)"
proof -
  have a1: "\<not> is_emergency_stopped (gks world_0)" by (simp add: world_0_def)
  have a2: "redis_up world_0" by (simp add: world_0_def)
  have a3: "distinct (map uuid (agents world_0))" by (simp add: world_0_def)
  have a4: "find_agent 1 ''X'' (agents world_0) = Some agent_X"
    by (simp add: scenario_defs find_agent_def)
  have a5: "status agent_X = Active" by (simp add: agent_X_def)
  have a6: "\<not> is_suspended agent_X" by (simp add: agent_X_def)
  have a7: "monthly_cost_limit agent_X = Some 10" by (simp add: agent_X_def)
  have a8: "getAgentSpend world_0 (month_30d 1000) ''X'' = 0"
    by (simp add: world_0_def getAgentSpend_def)
  have a9: "ledger_month_spend month_30d 1000 world_0 (uuid agent_X) = 0"
    by (simp add: world_0_def ledger_month_spend_def)
  have a10: "usageEventSchema (request_X (Some 6))" by (simp add: request_X_valid)
  have a11: "identifiers_fit (request_X (Some 6))" by (rule request_X_fits)
  have a12: "usage_events_accepts 1000 (request_X (Some 6))" by (simp add: request_X_accepted)
  have a13: "b_agent_id (request_X (Some 6)) = Some ''X''" by (simp add: request_X_def)
  have a14: "b_cost_amount (request_X (Some 6)) = Some 6" by (simp add: request_X_def)
  have a17: "month_30d 2000 = month_30d 1000" by (simp add: month_30d_def)
  have a18: "b_agent_id (request_X (Some 1)) = Some ''X''" by (simp add: request_X_def)
  have st: "map status (agents world_0) = [Active]" by (simp add: scenario_defs)
  show ?thesis
    using a4 a5 a7 a8 a9 a10 a12 a17 st
      C2_budget_scenario [OF a1 a2 a3 a4 a5 a6 a7 a8 a9 a10 a11 a12 a13 a14 a13 a14 a17 a18,
        where ?t3.0 = 3000]
    by (simp add: Let_def after_request_1_def after_request_2_def)
qed

text \<open>
  C2 as stated fails: after the refused second request the agent's status is still
  active, not killed, and the third request is refused with AGENT_SUSPENDED, not with
  AGENT_KILLED. And the spend that the gate reads is the cache entry of the external
  agent id: with nothing in the ledger and 5 in that entry, the first request of 6 is
  refused; with Redis unreachable the entry reads 0 even after the backfill from the
  ledger, and the second request of 6 is recorded like the first.
\<close>

theorem C2_counterexample:
  "map status (agents (after_request_2 month_30d 1000 2000)) = [Active]
   \<and> fst (record_route month_30d 3000 1 (request_X (Some 1)) (after_request_2 month_30d 1000 2000))
       = Response 403 (Some ''AGENT_SUSPENDED'')
   \<and> fst (record_route month_30d 3000 1 (request_X (Some 1)) (after_request_2 month_30d 1000 2000))
       \<noteq> Response 403 (Some ''AGENT_KILLED'')
   \<and> agents world_cache_five = [agent_X]
   \<and> ledger_month_spend month_30d 1000 world_cache_five (uuid agent_X) = 0
   \<and> fst (record_route month_30d 1000 1 (request_X (Some 6)) world_cache_five)
       = Response 403 (Some ''BUDGET_LIMIT_EXCEEDED'')
   \<and> fst (record_route month_30d 1000 1 (request_X (Some 6)) world_redis_down) = Response 201 None
   \<and> fst (record_route month_30d 2000 1 (request_X (Some 6))
            (snd (record_route month_30d 1000 1 (request_X (Some 6)) world_redis_down)))
       = Response 201 None"
proof -
  have h: "month_30d 2000 = month_30d 1000" by (simp add: month_30d_def)
  have t: "(0::int) \<le> 1000" by simp
  have suspended: "map status (agents (after_request_2 month_30d 1000 2000)) = [Active]
   \<and> fst (record_route month_30d 3000 1 (request_X (Some 1)) (after_request_2 month_30d 1000 2000))
       = Response 403 (Some ''AGENT_SUSPENDED'')"
    by (simp add: after_request_2_eq [OF t h] after_request_1_eq [OF t] scenario_defs route_defs)
  have five: "agents world_cache_five = [agent_X]
   \<and> ledger_month_spend month_30d 1000 world_cache_five (uuid agent_X) = 0
   \<and> fst (record_route month_30d 1000 1 (request_X (Some 6)) world_cache_five)
       = Response 403 (Some ''BUDGET_LIMIT_EXCEEDED'')"
    by (simp add: world_cache_five_def scenario_defs route_defs)
  have down1: "record_route month_30d 1000 1 (request_X (Some 6)) world_redis_down
      = (Response 201 None,
         world_redis_down\<lparr>customers := [\<lparr>c_uuid = 1, c_user_id = 1, c_customer_id = ''acme''\<rparr>],
           usage_events := [mk_usage_event 1000 1 1 (request_X (Some 6))]\<rparr>)"
    by (simp add: world_redis_down_def scenario_defs route_defs)
  have down2: "fst (record_route month_30d 2000 1 (request_X (Some 6))
            (snd (record_route month_30d 1000 1 (request_X (Some 6)) world_redis_down)))
       = Response 201 None"
    unfolding down1 snd_conv
    by (simp add: world_redis_down_def scenario_defs route_defs month_30d_def)
  show ?thesis using suspended five down1 down2 by simp
qed

subsection \<open>Global stop on the request path\<close>




subsection \<open>Spend cache fallback\<close>

text \<open>
  C4 (as amended). With Redis reachable, the cached spend reads 0 exactly when the
  entry is missing or is zero, and the gate treats both alike. A non-zero cached spend
  is used as it is and nothing is touched. When the cached spend reads 0 the gate goes
  on with the ledger's sum for the month; a positive sum is added to the entry, which
  then holds exactly that sum (nothing is counted twice), and a sum that is not positive
  leaves the cache as it was.
\<close>

theorem C4_cache_backfill:
  assumes "redis_up w"
  shows "(getAgentSpend w (month_of now) (agent_id a) = 0
            \<longleftrightarrow> agent_spend w (month_of now, agent_id a) = None
                \<or> agent_spend w (month_of now, agent_id a) = Some 0)
       \<and> (getAgentSpend w (month_of now) (agent_id a) \<noteq> 0 \<longrightarrow>
            current_spend month_of now a w = (getAgentSpend w (month_of now) (agent_id a), w))
       \<and> (getAgentSpend w (month_of now) (agent_id a) = 0 \<longrightarrow>
            fst (current_spend month_of now a w) = ledger_month_spend month_of now w (uuid a)
          \<and> (0 < ledger_month_spend month_of now w (uuid a) \<longrightarrow>
               snd (current_spend month_of now a w)
                 = w\<lparr>agent_spend := (agent_spend w)((month_of now, agent_id a) \<mapsto>
                                      ledger_month_spend month_of now w (uuid a))\<rparr>)
          \<and> (ledger_month_spend month_of now w (uuid a) \<le> 0 \<longrightarrow>
               snd (current_spend month_of now a w) = w))"
  using assms
  by (auto simp add: current_spend_def getAgentSpend_def incrementAgentSpend_def Let_def
      split: option.splits)

theorem C4_cache_backfill_witness:
  "redis_up world_cache_missing
   \<and> getAgentSpend world_cache_missing (month_30d 2000) (agent_id agent_X) = 0
   \<and> 0 < ledger_month_spend month_30d 2000 world_cache_missing (uuid agent_X)
   \<and> fst (current_spend month_30d 2000 agent_X world_cache_missing) = 6
   \<and> agent_spend (snd (current_spend month_30d 2000 agent_X world_cache_missing))
        (month_30d 2000, ''X'') = Some 6
   \<and> redis_up (after_request_1 month_30d 1000)
   \<and> getAgentSpend (after_request_1 month_30d 1000) (month_30d 2000) (agent_id agent_X) \<noteq> 0
   \<and> current_spend month_30d 2000 agent_X (after_request_1 month_30d 1000)
       = (6, after_request_1 month_30d 1000)"
proof -
  have h: "redis_up world_cache_missing" by (simp add: world_cache_missing_def world_0_def)
  have z: "getAgentSpend world_cache_missing (month_30d 2000) (agent_id agent_X) = 0"
    by (simp add: world_cache_missing_def world_0_def getAgentSpend_def)
  have l: "ledger_month_spend month_30d 2000 world_cache_missing (uuid agent_X) = 6"
    by (simp add: world_cache_missing_def world_0_def agent_X_def event_X6_def
        ledger_month_spend_def month_30d_def)
  have t: "(0::int) \<le> 1000" by simp
  have h': "redis_up (after_request_1 month_30d 1000)"
    by (simp add: after_request_1_eq [OF t] world_0_def)
  have z': "getAgentSpend (after_request_1 month_30d 1000) (month_30d 2000) (agent_id agent_X) = 6"
    by (simp add: after_request_1_eq [OF t] world_0_def agent_X_def getAgentSpend_def month_30d_def)
  show ?thesis
    using h z l h' z' C4_cache_backfill [OF h, of month_30d 2000 agent_X]
      C4_cache_backfill [OF h', of month_30d 2000 agent_X]
    by (simp add: agent_X_def)
qed

text \<open>
  C4 as stated fails: the gate does not tell a missing entry from a zero one. Both
  read 0, both send the gate to the ledger, and both end with the same cache.
\<close>

theorem C4_counterexample:
  "agent_spend world_cache_missing (month_30d 2000, ''X'') = None
   \<and> agent_spend world_cache_zero (month_30d 2000, ''X'') = Some 0
   \<and> getAgentSpend world_cache_missing (month_30d 2000) ''X''
       = getAgentSpend world_cache_zero (month_30d 2000) ''X''
   \<and> fst (current_spend month_30d 2000 agent_X world_cache_zero) = 6
   \<and> fst (current_spend month_30d 2000 agent_X world_cache_missing) = 6
   \<and> agent_spend (snd (current_spend month_30d 2000 agent_X world_cache_zero))
       = agent_spend (snd (current_spend month_30d 2000 agent_X world_cache_missing))"
  by (simp add: world_cache_missing_def world_cache_zero_def world_0_def agent_X_def event_X6_def
      current_spend_def getAgentSpend_def incrementAgentSpend_def ledger_month_spend_def
      month_30d_def Let_def)

subsection \<open>Paused agents on the request path\<close>

text \<open>
  C5 (as amended). Let the global stop be off, ids be unique, and a valid request whose
  identifiers fit be passed by the budget middleware, which runs first, for an agent
  that is paused until \<open>t\<close>. If \<open>t\<close> is still ahead, \<open>is_agent_active\<close> answers FALSE and the request is
  refused with 403 AGENT_KILLED, no agent row and no ledger row changing. If \<open>t\<close> has
  been reached, the same check sets the agent to active with \<open>pause_until\<close> cleared and
  answers TRUE; no check remains, and the request goes on to the INSERT: it is recorded
  (201) when the table accepts the event, and otherwise answered 500 with nothing
  recorded, the agent staying active.
\<close>

theorem C5_pause_expiry:
  assumes "\<not> is_emergency_stopped (gks w)"
    and "distinct (map uuid (agents w))"
    and "fst (enforceAgentBudget month_of now uid body w) = NextAgent a"
    and "usageEventSchema body"
    and "identifiers_fit body"
    and "status a = Paused"
    and "pause_until a = Some t"
  shows "(now < t \<longrightarrow>
            is_agent_active now (uuid a) uid w = (False, w)
          \<and> fst (record_route month_of now uid body w) = Response 403 (Some ''AGENT_KILLED'')
          \<and> agents (snd (record_route month_of now uid body w)) = agents w
          \<and> usage_events (snd (record_route month_of now uid body w)) = usage_events w)
       \<and> (t \<le> now \<longrightarrow>
            is_agent_active now (uuid a) uid w = (True, w\<lparr>agents := unpause (uuid a) (agents w)\<rparr>)
          \<and> agents (snd (record_route month_of now uid body w)) = unpause (uuid a) (agents w)
          \<and> find_agent uid (get [] (b_agent_id body)) (agents (snd (record_route month_of now uid body w)))
              = Some (a\<lparr>status := Active, pause_until := None\<rparr>)
          \<and> (usage_events_accepts now body \<longrightarrow>
                fst (record_route month_of now uid body w) = Response 201 None
              \<and> usage_events (snd (record_route month_of now uid body w))
                  = usage_events w @ [mk_usage_event now uid (uuid a) body])
          \<and> (\<not> usage_events_accepts now body \<longrightarrow>
                fst (record_route month_of now uid body w) = Response 500 None
              \<and> usage_events (snd (record_route month_of now uid body w)) = usage_events w))"
proof -
  let ?w1 = "snd (enforceAgentBudget month_of now uid body w)"
  let ?w0 = "snd (ensureCustomerExists uid (get [] (b_customer_id body)) ?w1)"
  let ?r = "record_route month_of now uid body w"
  obtain ext where ext: "b_agent_id body = Some ext" "find_agent uid ext (agents w) = Some a"
    using enforce_NextAgent(1) [OF assms(3)] by blast
  have ag: "agents ?w1 = agents w" by (rule enforce_NextAgent(2) [OF assms(3)])
  have mem: "a \<in> set (agents w)" "user_id a = uid"
    using find_SomeD [OF ext(2) [unfolded find_agent_def]] by simp_all
  have route: "?r = record_handler month_of now uid False body ?w1"
    using assms(3) by (simp add: record_route_def split_def)
  have f1: "find_agent uid ext (agents ?w1) = Some a" using ext(2) ag by simp
  have stop0: "\<not> is_emergency_stopped (gks ?w0)" using assms(1) by simp
  have d0: "distinct (map uuid (agents ?w0))" using assms(2) ag by simp
  have m0: "a \<in> set (agents ?w0)" using mem ag by simp
  have ag0: "agents ?w0 = agents w" using ag by simp
  have ev0: "usage_events ?w0 = usage_events w" by simp
  note p = paused_check [OF assms(1,2) mem assms(6,7)]
  note p0 = paused_check [OF stop0 d0 m0 mem(2) assms(6,7)]
  let ?w3 = "?w0\<lparr>agents := unpause (uuid a) (agents ?w0)\<rparr>"
  have fut: "?r = (Response 403 (Some ''AGENT_KILLED''), ?w0)" if "now < t"
    unfolding route using handler_existing [OF assms(4) ext(1) f1 p0(1) [OF that], of month_of]
    by simp
  have ela: "?r = (if \<not> usage_events_accepts now body then (Response 500 None, ?w3)
                   else (Response 201 None,
                         incrementAgentSpend
                           (?w3\<lparr>usage_events :=
                                   usage_events ?w3 @ [mk_usage_event now uid (uuid a) body]\<rparr>)
                           (month_of now) ext (get 0 (b_cost_amount body))))" if "t \<le> now"
    unfolding route using handler_existing [OF assms(4) ext(1) f1 p0(2) [OF that], of month_of]
    by simp
  have ag2: "agents (snd ?r) = unpause (uuid a) (agents w)" if "t \<le> now"
    unfolding ela [OF that] using ag0 by simp
  show ?thesis
  proof (intro conjI impI)
    assume lt: "now < t"
    show "is_agent_active now (uuid a) uid w = (False, w)" by (rule p(1) [OF lt])
    show "fst ?r = Response 403 (Some ''AGENT_KILLED'')" unfolding fut [OF lt] by simp
    show "agents (snd ?r) = agents w" unfolding fut [OF lt] using ag0 by simp
    show "usage_events (snd ?r) = usage_events w" unfolding fut [OF lt] using ev0 by simp
  next
    assume le: "t \<le> now"
    show "is_agent_active now (uuid a) uid w = (True, w\<lparr>agents := unpause (uuid a) (agents w)\<rparr>)"
      by (rule p(2) [OF le])
    show "agents (snd ?r) = unpause (uuid a) (agents w)" by (rule ag2 [OF le])
    show "find_agent uid (get [] (b_agent_id body)) (agents (snd ?r))
              = Some (a\<lparr>status := Active, pause_until := None\<rparr>)"
      using ext by (simp add: ag2 [OF le] find_agent_unpause get_def)
  next
    assume le: "t \<le> now" and acc: "usage_events_accepts now body"
    show "fst ?r = Response 201 None" unfolding ela [OF le] using acc by simp
    show "usage_events (snd ?r) = usage_events w @ [mk_usage_event now uid (uuid a) body]"
      unfolding ela [OF le] using acc by simp
  next
    assume le: "t \<le> now" and nacc: "\<not> usage_events_accepts now body"
    show "fst ?r = Response 500 None" unfolding ela [OF le] using nacc by simp
    show "usage_events (snd ?r) = usage_events w" unfolding ela [OF le] using nacc by simp
  qed
qed

lemmas paused_defs = world_paused_def agent_paused_def

theorem C5_pause_expiry_witness:
  "\<not> is_emergency_stopped (gks (world_paused 5000))
   \<and> distinct (map uuid (agents (world_paused 5000)))
   \<and> fst (enforceAgentBudget month_30d 1000 1 (request_X (Some 6)) (world_paused 5000))
       = NextAgent (agent_paused 5000)
   \<and> fst (enforceAgentBudget month_30d 5000 1 (request_X (Some 6)) (world_paused 5000))
       = NextAgent (agent_paused 5000)
   \<and> fst (enforceAgentBudget month_30d 5000 1 (request_X (Some 10000)) (world_paused 5000))
       = NextAgent (agent_paused 5000)
   \<and> usageEventSchema (request_X (Some 6)) \<and> usageEventSchema (request_X (Some 10000))
   \<and> identifiers_fit (request_X (Some 6)) \<and> identifiers_fit (request_X (Some 10000))
   \<and> usage_events_accepts 5000 (request_X (Some 6))
   \<and> \<not> usage_events_accepts 5000 (request_X (Some 10000))
   \<and> status (agent_paused 5000) = Paused \<and> pause_until (agent_paused 5000) = Some 5000
   \<and> fst (record_route month_30d 1000 1 (request_X (Some 6)) (world_paused 5000))
       = Response 403 (Some ''AGENT_KILLED'')
   \<and> fst (record_route month_30d 5000 1 (request_X (Some 6)) (world_paused 5000))
       = Response 201 None
   \<and> usage_events (snd (record_route month_30d 5000 1 (request_X (Some 6)) (world_paused 5000)))
       = [mk_usage_event 5000 1 1 (request_X (Some 6))]
   \<and> map status (agents (snd (record_route month_30d 5000 1 (request_X (Some 6)) (world_paused 5000))))
       = [Active]
   \<and> map pause_until (agents (snd (record_route month_30d 5000 1 (request_X (Some 6)) (world_paused 5000))))
       = [None]
   \<and> fst (record_route month_30d 5000 1 (request_X (Some 10000)) (world_paused 5000))
       = Response 500 None
   \<and> usage_events (snd (record_route month_30d 5000 1 (request_X (Some 10000)) (world_paused 5000)))
       = []
   \<and> map status (agents (snd (record_route month_30d 5000 1 (request_X (Some 10000)) (world_paused 5000))))
       = [Active]"
proof -
  have a: "\<not> is_emergency_stopped (gks (world_paused 5000))"
    by (simp add: paused_defs scenario_defs)
  have b: "distinct (map uuid (agents (world_paused 5000)))"
    by (simp add: paused_defs scenario_defs)
  have c: "fst (enforceAgentBudget month_30d 1000 1 (request_X (Some 6)) (world_paused 5000))
       = NextAgent (agent_paused 5000)"
    by (simp add: paused_defs scenario_defs enforceAgentBudget_def find_agent_def)
  have c': "fst (enforceAgentBudget month_30d 5000 1 (request_X (Some 6)) (world_paused 5000))
       = NextAgent (agent_paused 5000)"
    by (simp add: paused_defs scenario_defs enforceAgentBudget_def find_agent_def)
  have c'': "fst (enforceAgentBudget month_30d 5000 1 (request_X (Some 10000)) (world_paused 5000))
       = NextAgent (agent_paused 5000)"
    by (simp add: paused_defs scenario_defs enforceAgentBudget_def find_agent_def)
  have d: "usageEventSchema (request_X (Some 6))" by (simp add: request_X_valid)
  have d': "usageEventSchema (request_X (Some 10000))" by (simp add: request_X_valid)
  have i: "identifiers_fit (request_X (Some 6))" by (rule request_X_fits)
  have i': "identifiers_fit (request_X (Some 10000))" by (rule request_X_fits)
  have acc: "usage_events_accepts 5000 (request_X (Some 6))" by (simp add: request_X_accepted)
  have nacc: "\<not> usage_events_accepts 5000 (request_X (Some 10000))"
    by (simp add: request_X_def usage_events_accepts_def get_def)
  have e: "status (agent_paused 5000) = Paused" by (simp add: agent_paused_def)
  have f: "pause_until (agent_paused 5000) = Some 5000" by (simp add: agent_paused_def)
  have u: "uuid (agent_paused 5000) = 1" by (simp add: agent_paused_def agent_X_def)
  have w: "usage_events (world_paused 5000) = []" "agents (world_paused 5000) = [agent_paused 5000]"
    by (simp_all add: paused_defs scenario_defs)
  note A = C5_pause_expiry [OF a b c d i e f, THEN conjunct1]
  note B = C5_pause_expiry [OF a b c' d i e f, THEN conjunct2]
  note C = C5_pause_expiry [OF a b c'' d' i' e f, THEN conjunct2]
  have lt: "(1000::int) < 5000" and le: "(5000::int) \<le> 5000" by simp_all
  note A' = mp [OF A lt]
  note B' = mp [OF B le]
  note C' = mp [OF C le]
  note B1 = B' [THEN conjunct2, THEN conjunct1]
  note B3 = mp [OF B' [THEN conjunct2, THEN conjunct2, THEN conjunct2, THEN conjunct1] acc]
  note C1 = C' [THEN conjunct2, THEN conjunct1]
  note C4 = mp [OF C' [THEN conjunct2, THEN conjunct2, THEN conjunct2, THEN conjunct2] nacc]
  have hs: "map status (unpause 1 [agent_paused 5000]) = [Active]"
           "map pause_until (unpause 1 [agent_paused 5000]) = [None]"
    by (simp_all add: unpause_def u)
  show ?thesis
    using a b c c' c'' d d' i i' acc nacc e f A' [THEN conjunct2, THEN conjunct1] B1 B3 C1 C4 hs
    by (simp add: u w)
qed

text \<open>
  C5 as stated fails. A request of an agent paused until a later time is refused with
  AGENT_KILLED, not AGENT_PAUSED. And the budget check is no remaining check: it runs
  before the pause is looked at, so a request over the limit of an agent whose pause
  has elapsed is refused with BUDGET_LIMIT_EXCEEDED and the agent is left paused.
\<close>

theorem C5_counterexample:
  "map status (agents (world_paused 5000)) = [Paused]
   \<and> map pause_until (agents (world_paused 5000)) = [Some 5000]
   \<and> fst (record_route month_30d 1000 1 (request_X (Some 6)) (world_paused 5000))
       = Response 403 (Some ''AGENT_KILLED'')
   \<and> fst (record_route month_30d 1000 1 (request_X (Some 6)) (world_paused 5000))
       \<noteq> Response 403 (Some ''AGENT_PAUSED'')
   \<and> map status (agents (world_paused_limited 5000)) = [Paused]
   \<and> map pause_until (agents (world_paused_limited 5000)) = [Some 5000]
   \<and> fst (record_route month_30d 6000 1 (request_X (Some 12)) (world_paused_limited 5000))
       = Response 403 (Some ''BUDGET_LIMIT_EXCEEDED'')
   \<and> map status (agents (snd (record_route month_30d 6000 1 (request_X (Some 12))
                                   (world_paused_limited 5000)))) = [Paused]
   \<and> map pause_until (agents (snd (record_route month_30d 6000 1 (request_X (Some 12))
                                   (world_paused_limited 5000)))) = [Some 5000]"
  by (simp add: paused_defs world_paused_limited_def scenario_defs route_defs)

subsection \<open>Revival and the suspension flag\<close>

lemma revive_agents:
  "fst (revive_agent uid ext rsn w) = Response 200 None \<Longrightarrow>
   agents (snd (revive_agent uid ext rsn w)) =
     map (\<lambda>a. if user_id a = uid \<and> agent_id a = ext \<and> (status a = Killed \<or> status a = Paused)
               then a\<lparr>status := Active, pause_until := None, kill_reason := None,
                      killed_at := None, killed_by := None\<rparr>
               else a) (agents w)"
  by (simp add: revive_agent_def Let_def logKillSwitchEvent_def
      split: if_splits revive_reason.splits)

text \<open>
  C10. Let the agent that the gate reads for \<open>(uid, ext)\<close> be suspended, and let a
  revive of it succeed. Afterwards the agent is active and still suspended, with its
  limit unchanged, and every request naming it is refused with 403 AGENT_SUSPENDED and
  changes nothing, so the same holds for every sequence of such requests.
\<close>

theorem C10_revive_keeps_suspension:
  assumes "find_agent uid ext (agents w) = Some a"
    and "is_suspended a"
    and "ext \<noteq> []"
    and "fst (revive_agent uid ext rsn w) = Response 200 None"
  shows "(\<exists>a'. find_agent uid ext (agents (snd (revive_agent uid ext rsn w))) = Some a'
               \<and> is_suspended a' \<and> status a' = Active \<and> monthly_cost_limit a' = monthly_cost_limit a)
       \<and> (\<forall>month_of now body. b_agent_id body = Some ext \<longrightarrow>
             record_route month_of now uid body (snd (revive_agent uid ext rsn w))
               = (Response 403 (Some ''AGENT_SUSPENDED''), snd (revive_agent uid ext rsn w)))
       \<and> (\<forall>month_of reqs. (\<forall>r \<in> set reqs. b_agent_id (snd r) = Some ext) \<longrightarrow>
             record_all month_of uid reqs (snd (revive_agent uid ext rsn w))
               = (replicate (length reqs) (Response 403 (Some ''AGENT_SUSPENDED'')),
                  snd (revive_agent uid ext rsn w)))"
proof -
  let ?w' = "snd (revive_agent uid ext rsn w)"
  let ?f = "\<lambda>a. if user_id a = uid \<and> agent_id a = ext \<and> (status a = Killed \<or> status a = Paused)
               then a\<lparr>status := Active, pause_until := None, kill_reason := None,
                      killed_at := None, killed_by := None\<rparr>
               else a"
  have key: "agent_id a = ext \<and> user_id a = uid"
    using find_SomeD [OF assms(1) [unfolded find_agent_def]] by simp
  have found: "find_agent uid ext (agents ?w') = Some (?f a)"
    unfolding revive_agents [OF assms(4)] find_agent_def
    using assms(1) [unfolded find_agent_def]
    by (subst find_map_preserve) simp_all
  have susp: "is_suspended (?f a)" using assms(2) by simp
  have act: "status (?f a) = Active" using key by (cases "status a") simp_all
  have lim: "monthly_cost_limit (?f a) = monthly_cost_limit a" by simp
  show ?thesis
    using found susp act lim suspended_denied [OF found susp assms(3)]
      suspended_denied_all [OF found susp assms(3)]
    by blast
qed

theorem C10_revive_keeps_suspension_witness:
  "find_agent 1 ''X'' (agents world_killed_suspended)
     = Some (agent_X\<lparr>status := Killed, is_suspended := True, kill_reason := Some ''runaway''\<rparr>)
   \<and> fst (revive_agent 1 ''X'' ReasonAbsent world_killed_suspended) = Response 200 None
   \<and> map status (agents (snd (revive_agent 1 ''X'' ReasonAbsent world_killed_suspended))) = [Active]
   \<and> map is_suspended (agents (snd (revive_agent 1 ''X'' ReasonAbsent world_killed_suspended))) = [True]
   \<and> fst (record_route month_30d 1000 1 (request_X (Some 1))
            (snd (revive_agent 1 ''X'' ReasonAbsent world_killed_suspended)))
       = Response 403 (Some ''AGENT_SUSPENDED'')"
proof -
  let ?a = "agent_X\<lparr>status := Killed, is_suspended := True, kill_reason := Some ''runaway''\<rparr>"
  have f: "find_agent 1 ''X'' (agents world_killed_suspended) = Some ?a"
    by (simp add: world_killed_suspended_def scenario_defs find_agent_def)
  have s: "is_suspended ?a" by simp
  have e: "''X'' \<noteq> []" by simp
  have r: "fst (revive_agent 1 ''X'' ReasonAbsent world_killed_suspended) = Response 200 None"
    by (simp add: world_killed_suspended_def scenario_defs revive_agent_def Let_def)
  have b: "b_agent_id (request_X (Some 1)) = Some ''X''" by (simp add: request_X_def)
  have st: "map status (agents (snd (revive_agent 1 ''X'' ReasonAbsent world_killed_suspended))) = [Active]"
       "map is_suspended (agents (snd (revive_agent 1 ''X'' ReasonAbsent world_killed_suspended))) = [True]"
    by (simp_all add: world_killed_suspended_def scenario_defs revive_agent_def Let_def
        logKillSwitchEvent_def)
  show ?thesis
    using f r st b C10_revive_keeps_suspension [OF f s e r]
    by simp
qed

subsection \<open>Emergency stop\<close>

lemma stop_all_agents:
  "fst (emergency_stop_all now uid body w) = Response 200 None \<Longrightarrow>
   agents (snd (emergency_stop_all now uid body w)) =
     map (\<lambda>a. if status a \<noteq> Killed
               then a\<lparr>status := Killed, killed_at := Some now, killed_by := Some uid,
                      kill_reason := Some (''Emergency stop: '' @ get [] (s_reason body))\<rparr>
               else a) (agents w)"
  by (simp add: emergency_stop_all_def Let_def logKillSwitchEvent_def split: if_splits)

lemma stop_all_flag:
  "fst (emergency_stop_all now uid body w) = Response 200 None \<Longrightarrow>
   is_emergency_stopped (gks (snd (emergency_stop_all now uid body w)))"
  by (simp add: emergency_stop_all_def Let_def logKillSwitchEvent_def split: if_splits)

text \<open>
  C8. An emergency stop whose body lacks \<open>confirm = true\<close> is refused with 400 and
  changes nothing; a valid body is accepted. An accepted stop sets the global flag and
  leaves every agent killed, in the one request: the rows keep their ids, rows killed
  before are untouched. Disabling the stop clears the global row and changes neither an
  agent row nor the ledger nor the cache.
\<close>

theorem C8_emergency_stop:
  "(s_confirm body \<noteq> Some True \<longrightarrow> emergency_stop_all now uid body w = (Response 400 None, w))
   \<and> (emergencyStopSchema body \<longrightarrow> fst (emergency_stop_all now uid body w) = Response 200 None)
   \<and> (fst (emergency_stop_all now uid body w) = Response 200 None \<longrightarrow>
         is_emergency_stopped (gks (snd (emergency_stop_all now uid body w)))
       \<and> map uuid (agents (snd (emergency_stop_all now uid body w))) = map uuid (agents w)
       \<and> (\<forall>a \<in> set (agents (snd (emergency_stop_all now uid body w))). status a = Killed)
       \<and> (\<forall>a \<in> set (agents w). status a = Killed \<longrightarrow>
             a \<in> set (agents (snd (emergency_stop_all now uid body w)))))
   \<and> agents (snd (emergency_stop_disable uid w)) = agents w
   \<and> \<not> is_emergency_stopped (gks (snd (emergency_stop_disable uid w)))
   \<and> usage_events (snd (emergency_stop_disable uid w)) = usage_events w
   \<and> agent_spend (snd (emergency_stop_disable uid w)) = agent_spend w"
proof (intro conjI)
  show "s_confirm body \<noteq> Some True \<longrightarrow>
      emergency_stop_all now uid body w = (Response 400 None, w)"
    by (simp add: emergency_stop_all_def emergencyStopSchema_def)
  show "emergencyStopSchema body \<longrightarrow>
      fst (emergency_stop_all now uid body w) = Response 200 None"
    by (simp add: emergency_stop_all_def emergencyStopSchema_def Let_def)
  show "fst (emergency_stop_all now uid body w) = Response 200 None \<longrightarrow>
         is_emergency_stopped (gks (snd (emergency_stop_all now uid body w)))
       \<and> map uuid (agents (snd (emergency_stop_all now uid body w))) = map uuid (agents w)
       \<and> (\<forall>a \<in> set (agents (snd (emergency_stop_all now uid body w))). status a = Killed)
       \<and> (\<forall>a \<in> set (agents w). status a = Killed \<longrightarrow>
             a \<in> set (agents (snd (emergency_stop_all now uid body w))))"
  proof (intro impI conjI ballI)
    assume ok: "fst (emergency_stop_all now uid body w) = Response 200 None"
    note ag = stop_all_agents [OF ok]
    show "is_emergency_stopped (gks (snd (emergency_stop_all now uid body w)))"
      by (rule stop_all_flag [OF ok])
    show "map uuid (agents (snd (emergency_stop_all now uid body w))) = map uuid (agents w)"
      unfolding ag by (simp add: comp_def if_distrib [of uuid] cong: if_cong)
    show "status a = Killed" if "a \<in> set (agents (snd (emergency_stop_all now uid body w)))" for a
      using that unfolding ag by auto
    show "a \<in> set (agents (snd (emergency_stop_all now uid body w)))"
      if "a \<in> set (agents w)" "status a = Killed" for a
      unfolding ag set_map using that by (intro image_eqI [of _ _ a]) simp_all
  qed
  show "agents (snd (emergency_stop_disable uid w)) = agents w"
    by (simp add: emergency_stop_disable_def Let_def logKillSwitchEvent_def)
  show "\<not> is_emergency_stopped (gks (snd (emergency_stop_disable uid w)))"
    by (simp add: emergency_stop_disable_def Let_def logKillSwitchEvent_def)
  show "usage_events (snd (emergency_stop_disable uid w)) = usage_events w"
    by (simp add: emergency_stop_disable_def Let_def logKillSwitchEvent_def)
  show "agent_spend (snd (emergency_stop_disable uid w)) = agent_spend w"
    by (simp add: emergency_stop_disable_def Let_def logKillSwitchEvent_def)
qed


theorem C8_emergency_stop_witness:
  "s_confirm stop_unconfirmed \<noteq> Some True
   \<and> emergency_stop_all 1000 1 stop_unconfirmed world_0 = (Response 400 None, world_0)
   \<and> emergencyStopSchema stop_confirmed
   \<and> fst (emergency_stop_all 1000 1 stop_confirmed world_0) = Response 200 None
   \<and> is_emergency_stopped (gks (snd (emergency_stop_all 1000 1 stop_confirmed world_0)))
   \<and> map status (agents world_0) = [Active]
   \<and> map status (agents (snd (emergency_stop_all 1000 1 stop_confirmed world_0))) = [Killed]
   \<and> map status (agents (snd (emergency_stop_disable 1
        (snd (emergency_stop_all 1000 1 stop_confirmed world_0))))) = [Killed]
   \<and> \<not> is_emergency_stopped (gks (snd (emergency_stop_disable 1
        (snd (emergency_stop_all 1000 1 stop_confirmed world_0)))))"
proof -
  let ?w = "snd (emergency_stop_all 1000 1 stop_confirmed world_0)"
  have u: "s_confirm stop_unconfirmed \<noteq> Some True" by (simp add: stop_unconfirmed_def)
  have c: "emergencyStopSchema stop_confirmed"
    by (simp add: stop_confirmed_def emergencyStopSchema_def)
  have a: "map status (agents world_0) = [Active]" by (simp add: scenario_defs)
  have k: "map status (agents ?w) = [Killed]"
    by (simp add: stop_confirmed_def emergencyStopSchema_def emergency_stop_all_def Let_def
        logKillSwitchEvent_def scenario_defs)
  note A = C8_emergency_stop [of stop_unconfirmed 1000 1 world_0]
  note B = C8_emergency_stop [of stop_confirmed 1000 1 world_0]
  note D = C8_emergency_stop [of stop_confirmed 1000 1 ?w]
  have r: "emergency_stop_all 1000 1 stop_unconfirmed world_0 = (Response 400 None, world_0)"
    by (rule mp [OF A [THEN conjunct1] u])
  have ok: "fst (emergency_stop_all 1000 1 stop_confirmed world_0) = Response 200 None"
    by (rule mp [OF B [THEN conjunct2, THEN conjunct1] c])
  have f: "is_emergency_stopped (gks ?w)"
    by (rule mp [OF B [THEN conjunct2, THEN conjunct2, THEN conjunct1] ok, THEN conjunct1])
  have d: "agents (snd (emergency_stop_disable 1 ?w)) = agents ?w"
    by (rule D [THEN conjunct2, THEN conjunct2, THEN conjunct2, THEN conjunct1])
  have e: "\<not> is_emergency_stopped (gks (snd (emergency_stop_disable 1 ?w)))"
    by (rule D [THEN conjunct2, THEN conjunct2, THEN conjunct2, THEN conjunct2, THEN conjunct1])
  show ?thesis using u r c ok f a k d e by simp
qed

subsection \<open>Scheduling of the evaluator\<close>

text \<open>
  C6 (as amended). Only \<open>start\<close> is guarded: on a running monitor it does nothing,
  otherwise it begins one tick and installs the interval. Every firing of the interval
  begins a tick at once, whatever the number of ticks still running: ticks are not
  queued and not skipped, and they may overlap.
\<close>

theorem C6_ticks_not_guarded:
  "(isRunning m \<longrightarrow> monitor_step m Start = m)
   \<and> (\<not> isRunning m \<longrightarrow>
         ticks_running (monitor_step m Start) = ticks_running m + 1
       \<and> monitoringInterval (monitor_step m Start) \<and> isRunning (monitor_step m Start))
   \<and> (monitoringInterval m \<longrightarrow>
         ticks_running (monitor_step m IntervalFires) = ticks_running m + 1)"
  by simp

theorem C6_ticks_not_guarded_witness:
  "isRunning (monitor_run [Start]) \<and> monitoringInterval (monitor_run [Start])
   \<and> \<not> isRunning new_monitor
   \<and> ticks_running (monitor_run [Start]) = 1
   \<and> monitor_step (monitor_run [Start]) Start = monitor_run [Start]
   \<and> ticks_running (monitor_step (monitor_run [Start]) IntervalFires) = 2"
  using C6_ticks_not_guarded [of "monitor_run [Start]"] C6_ticks_not_guarded [of new_monitor]
  by (simp add: monitor_run_def new_monitor_def)

text \<open>
  C6 as stated fails: when the interval fires while the tick begun by \<open>start\<close> is still
  running, two ticks run at once.
\<close>

theorem C6_counterexample:
  "ticks_running (monitor_run [Start, IntervalFires]) = 2
   \<and> \<not> ticks_running (monitor_run [Start, IntervalFires]) \<le> 1"
  by (simp add: monitor_run_def new_monitor_def)

subsection \<open>Audit records of transitions\<close>

lemma log_length [simp]:
  "length (kill_switch_events (logKillSwitchEvent et tt ti u r tb w)) = Suc (length (kill_switch_events w))"
  "agents (logKillSwitchEvent et tt ti u r tb w) = agents w"
  "usage_events (logKillSwitchEvent et tt ti u r tb w) = usage_events w"
  "gks (logKillSwitchEvent et tt ti u r tb w) = gks w"
  by (simp_all add: logKillSwitchEvent_def)

lemma log_events:
  "kill_switch_events (logKillSwitchEvent et tt ti u r tb w)
     = kill_switch_events w @ [audit et tt ti u r tb]"
  by (simp add: logKillSwitchEvent_def audit_def)

lemma transitions_map:
  "transitions xs (map f xs) = length (filter (\<lambda>a. status a \<noteq> status (f a)) xs)"
  by (induction xs) (simp_all add: transitions_def)

lemma unique_key_filter:
  "distinct (map (\<lambda>a. (user_id a, agent_id a)) ags) \<Longrightarrow>
   length (filter (\<lambda>a. user_id a = uid \<and> agent_id a = ext \<and> Q a) ags) \<le> 1"
proof (induction ags)
  case Nil
  then show ?case by simp
next
  case (Cons x xs)
  show ?case
  proof (cases "user_id x = uid \<and> agent_id x = ext")
    case True
    then have "\<forall>y \<in> set xs. \<not> (user_id y = uid \<and> agent_id y = ext)"
      using Cons.prems by (auto simp add: image_iff)
    then have "filter (\<lambda>a. user_id a = uid \<and> agent_id a = ext \<and> Q a) xs = []"
      by (auto simp add: filter_empty_conv)
    then show ?thesis by simp
  next
    case False
    then show ?thesis using Cons by auto
  qed
qed

lemma one_hit:
  "length (filter P xs) \<le> 1 \<Longrightarrow> filter P xs \<noteq> [] \<Longrightarrow> length (filter P xs) = 1"
  by (cases "filter P xs") simp_all

lemma kill_agent_audit:
  assumes "distinct (map (\<lambda>a. (user_id a, agent_id a)) (agents w))"
  shows "fst (kill_agent now uid ext rsn w) = Response 200 None \<Longrightarrow>
           transitions (agents w) (agents (snd (kill_agent now uid ext rsn w))) = 1
         \<and> kill_switch_events (snd (kill_agent now uid ext rsn w))
             = kill_switch_events w @ [audit ''kill_agent'' ''agent'' (Some ext) uid (get [] rsn) ''manual'']"
    and "fst (kill_agent now uid ext rsn w) \<noteq> Response 200 None \<Longrightarrow>
           snd (kill_agent now uid ext rsn w) = w"
proof -
  let ?hit = "\<lambda>a. user_id a = uid \<and> agent_id a = ext \<and> status a \<noteq> Killed"
  let ?f = "\<lambda>a. if ?hit a then a\<lparr>status := Killed, killed_at := Some now,
                                    killed_by := Some uid, kill_reason := rsn\<rparr> else a"
  show "fst (kill_agent now uid ext rsn w) \<noteq> Response 200 None \<Longrightarrow>
     snd (kill_agent now uid ext rsn w) = w"
    by (simp add: kill_agent_def Let_def split: if_splits)
  assume ok: "fst (kill_agent now uid ext rsn w) = Response 200 None"
  then have ne: "filter ?hit (agents w) \<noteq> []" and v: "killAgentSchema rsn"
    by (simp_all add: kill_agent_def Let_def split: if_splits)
  have one: "length (filter ?hit (agents w)) = 1"
    by (rule one_hit [OF unique_key_filter [OF assms] ne])
  have "filter (\<lambda>a. status a \<noteq> status (?f a)) (agents w) = filter ?hit (agents w)"
    by (rule filter_cong) auto
  then have tr: "transitions (agents w) (map ?f (agents w)) = 1"
    using one by (simp only: transitions_map)
  show "transitions (agents w) (agents (snd (kill_agent now uid ext rsn w))) = 1
         \<and> kill_switch_events (snd (kill_agent now uid ext rsn w))
             = kill_switch_events w @ [audit ''kill_agent'' ''agent'' (Some ext) uid (get [] rsn) ''manual'']"
    using ne v tr by (simp add: kill_agent_def Let_def log_events)
qed

lemma pause_agent_audit:
  assumes "distinct (map (\<lambda>a. (user_id a, agent_id a)) (agents w))"
  shows "fst (pause_agent now uid ext body w) = Response 200 None \<Longrightarrow>
           transitions (agents w) (agents (snd (pause_agent now uid ext body w))) = 1
         \<and> kill_switch_events (snd (pause_agent now uid ext body w))
             = kill_switch_events w
               @ [audit ''pause_agent'' ''agent'' (Some ext) uid (get [] (p_reason body)) ''manual'']"
    and "fst (pause_agent now uid ext body w) \<noteq> Response 200 None \<Longrightarrow>
           snd (pause_agent now uid ext body w) = w"
proof -
  let ?hit = "\<lambda>a. user_id a = uid \<and> agent_id a = ext \<and> status a = Active"
  let ?f = "\<lambda>a. if ?hit a
                 then a\<lparr>status := Paused,
                        pause_until := Some (now + get 0 (p_duration_minutes body) * 60000),
                        kill_reason := p_reason body\<rparr> else a"
  show "fst (pause_agent now uid ext body w) \<noteq> Response 200 None \<Longrightarrow>
     snd (pause_agent now uid ext body w) = w"
    by (simp add: pause_agent_def Let_def split: if_splits)
  assume ok: "fst (pause_agent now uid ext body w) = Response 200 None"
  then have ne: "filter ?hit (agents w) \<noteq> []" and v: "pauseAgentSchema body"
    by (simp_all add: pause_agent_def Let_def split: if_splits)
  have one: "length (filter ?hit (agents w)) = 1"
    by (rule one_hit [OF unique_key_filter [OF assms] ne])
  have "filter (\<lambda>a. status a \<noteq> status (?f a)) (agents w) = filter ?hit (agents w)"
    by (rule filter_cong) auto
  then have tr: "transitions (agents w) (map ?f (agents w)) = 1"
    using one by (simp only: transitions_map)
  show "transitions (agents w) (agents (snd (pause_agent now uid ext body w))) = 1
         \<and> kill_switch_events (snd (pause_agent now uid ext body w))
             = kill_switch_events w
               @ [audit ''pause_agent'' ''agent'' (Some ext) uid (get [] (p_reason body)) ''manual'']"
    using ne v tr by (simp add: pause_agent_def Let_def log_events)
qed

lemma revive_agent_audit:
  assumes "distinct (map (\<lambda>a. (user_id a, agent_id a)) (agents w))"
  shows "fst (revive_agent uid ext rsn w) = Response 200 None \<Longrightarrow>
           transitions (agents w) (agents (snd (revive_agent uid ext rsn w))) = 1
         \<and> kill_switch_events (snd (revive_agent uid ext rsn w))
             = kill_switch_events w
               @ [audit ''revive_agent'' ''agent'' (Some ext) uid
                    (case rsn of ReasonText r \<Rightarrow> r | _ \<Rightarrow> ''Manual revival'') ''manual'']"
    and "fst (revive_agent uid ext rsn w) = Response 404 None \<Longrightarrow>
           snd (revive_agent uid ext rsn w) = w"
proof -
  let ?hit = "\<lambda>a. user_id a = uid \<and> agent_id a = ext \<and> (status a = Killed \<or> status a = Paused)"
  let ?f = "\<lambda>a. if ?hit a
                 then a\<lparr>status := Active, pause_until := None, kill_reason := None,
                        killed_at := None, killed_by := None\<rparr> else a"
  show "fst (revive_agent uid ext rsn w) = Response 404 None \<Longrightarrow>
     snd (revive_agent uid ext rsn w) = w"
    by (simp add: revive_agent_def Let_def split: if_splits revive_reason.splits)
  assume ok: "fst (revive_agent uid ext rsn w) = Response 200 None"
  then have ne: "filter ?hit (agents w) \<noteq> []" and v: "rsn \<noteq> ReasonNull"
    by (auto simp add: revive_agent_def Let_def split: if_splits revive_reason.splits)
  have one: "length (filter ?hit (agents w)) = 1"
    by (rule one_hit [OF unique_key_filter [OF assms] ne])
  have "filter (\<lambda>a. status a \<noteq> status (?f a)) (agents w) = filter ?hit (agents w)"
    by (rule filter_cong) auto
  then have tr: "transitions (agents w) (map ?f (agents w)) = 1"
    using one by (simp only: transitions_map)
  show "transitions (agents w) (agents (snd (revive_agent uid ext rsn w))) = 1
         \<and> kill_switch_events (snd (revive_agent uid ext rsn w))
             = kill_switch_events w
               @ [audit ''revive_agent'' ''agent'' (Some ext) uid
                    (case rsn of ReasonText r \<Rightarrow> r | _ \<Rightarrow> ''Manual revival'') ''manual'']"
    using ne v tr by (cases rsn) (simp_all add: revive_agent_def Let_def log_events)
qed

lemma triggerAutoKill_audit:
  "kill_switch_events (triggerAutoKill now t v w)
     = kill_switch_events w
       @ [audit ''kill_agent'' ''agent'' (Some (v_agent_id v)) (t_user_id t) (auto_kill_reason t)
            (''auto_'' @ t_trigger_type t)]"
  "transitions (agents w) (agents (triggerAutoKill now t v w))
     = length (filter (\<lambda>a. uuid a = v_agent_uuid v \<and> status a = Active) (agents w))"
  "(\<forall>a \<in> set (agents w). uuid a = v_agent_uuid v \<longrightarrow> status a \<noteq> Active) \<Longrightarrow>
   agents (triggerAutoKill now t v w) = agents w"
proof -
  let ?f = "\<lambda>a. if uuid a = v_agent_uuid v \<and> status a = Active
                 then a\<lparr>status := Killed, killed_at := Some now,
                        kill_reason := Some (auto_kill_reason t)\<rparr> else a"
  show "kill_switch_events (triggerAutoKill now t v w)
     = kill_switch_events w
       @ [audit ''kill_agent'' ''agent'' (Some (v_agent_id v)) (t_user_id t) (auto_kill_reason t)
            (''auto_'' @ t_trigger_type t)]"
    by (simp add: triggerAutoKill_def log_events)
  have ag: "agents (triggerAutoKill now t v w) = map ?f (agents w)"
    by (simp add: triggerAutoKill_def)
  have "filter (\<lambda>a. status a \<noteq> status (?f a)) (agents w)
          = filter (\<lambda>a. uuid a = v_agent_uuid v \<and> status a = Active) (agents w)"
    by (rule filter_cong) auto
  then show "transitions (agents w) (agents (triggerAutoKill now t v w))
     = length (filter (\<lambda>a. uuid a = v_agent_uuid v \<and> status a = Active) (agents w))"
    by (simp only: ag transitions_map)
  assume "\<forall>a \<in> set (agents w). uuid a = v_agent_uuid v \<longrightarrow> status a \<noteq> Active"
  then have "map ?f (agents w) = agents w" by (intro map_idI) auto
  then show "agents (triggerAutoKill now t v w) = agents w" by (simp only: ag)
qed

lemma emergency_stop_audit:
  "fst (emergency_stop_all now uid body w) = Response 200 None \<Longrightarrow>
     transitions (agents w) (agents (snd (emergency_stop_all now uid body w)))
       = length (filter (\<lambda>a. status a \<noteq> Killed) (agents w))
   \<and> kill_switch_events (snd (emergency_stop_all now uid body w))
       = kill_switch_events w
         @ [audit ''emergency_stop_all'' ''global'' None uid (get [] (s_reason body)) ''manual'']"
  "fst (emergency_stop_all now uid body w) \<noteq> Response 200 None \<Longrightarrow>
     snd (emergency_stop_all now uid body w) = w"
proof -
  let ?f = "\<lambda>a. if status a \<noteq> Killed
               then a\<lparr>status := Killed, killed_at := Some now, killed_by := Some uid,
                      kill_reason := Some (''Emergency stop: '' @ get [] (s_reason body))\<rparr>
               else a"
  show "fst (emergency_stop_all now uid body w) \<noteq> Response 200 None \<Longrightarrow>
     snd (emergency_stop_all now uid body w) = w"
    by (simp add: emergency_stop_all_def Let_def split: if_splits)
  assume ok: "fst (emergency_stop_all now uid body w) = Response 200 None"
  have ag: "agents (snd (emergency_stop_all now uid body w)) = map ?f (agents w)"
    by (rule stop_all_agents [OF ok])
  have "filter (\<lambda>a. status a \<noteq> status (?f a)) (agents w)
          = filter (\<lambda>a. status a \<noteq> Killed) (agents w)"
    by (rule filter_cong) auto
  then have tr: "transitions (agents w) (agents (snd (emergency_stop_all now uid body w)))
       = length (filter (\<lambda>a. status a \<noteq> Killed) (agents w))"
    by (simp only: ag transitions_map)
  have ev: "kill_switch_events (snd (emergency_stop_all now uid body w))
       = kill_switch_events w
         @ [audit ''emergency_stop_all'' ''global'' None uid (get [] (s_reason body)) ''manual'']"
    using ok by (simp add: emergency_stop_all_def Let_def log_events split: if_splits)
  show "transitions (agents w) (agents (snd (emergency_stop_all now uid body w)))
       = length (filter (\<lambda>a. status a \<noteq> Killed) (agents w))
   \<and> kill_switch_events (snd (emergency_stop_all now uid body w))
       = kill_switch_events w
         @ [audit ''emergency_stop_all'' ''global'' None uid (get [] (s_reason body)) ''manual'']"
    using tr ev by simp
qed

lemma kill_customer_audit:
  "fst (kill_customer now uid cid rsn w) = Response 200 None \<Longrightarrow>
     transitions (agents w) (agents (snd (kill_customer now uid cid rsn w)))
       = length (filter (\<lambda>a. user_id a = uid \<and> status a \<noteq> Killed) (agents w))
   \<and> kill_switch_events (snd (kill_customer now uid cid rsn w))
       = kill_switch_events w
         @ [audit ''kill_customer'' ''customer'' (Some cid) uid (get [] rsn) ''manual'']"
  "fst (kill_customer now uid cid rsn w) \<noteq> Response 200 None \<Longrightarrow>
     snd (kill_customer now uid cid rsn w) = w"
proof -
  show "fst (kill_customer now uid cid rsn w) \<noteq> Response 200 None \<Longrightarrow>
     snd (kill_customer now uid cid rsn w) = w"
    by (simp add: kill_customer_def Let_def split: if_splits option.splits)
  assume ok: "fst (kill_customer now uid cid rsn w) = Response 200 None"
  then obtain c where c: "find (\<lambda>c. c_user_id c = uid \<and> c_customer_id c = cid) (customers w) = Some c"
    and v: "killAgentSchema rsn"
    by (auto simp add: kill_customer_def Let_def split: if_splits option.splits)
  have cm: "c \<in> set (customers w)" "c_user_id c = uid"
    using find_SomeD [OF c] by simp_all
  let ?hit = "\<lambda>a. user_id a = uid \<and>
                   list_ex (\<lambda>c'. c_uuid c' = c_uuid c \<and> c_user_id c' = user_id a) (customers w) \<and>
                   status a \<noteq> Killed"
  let ?f = "\<lambda>a. if ?hit a then a\<lparr>status := Killed, killed_at := Some now,
                                    killed_by := Some uid, kill_reason := rsn\<rparr> else a"
  have res: "kill_customer now uid cid rsn w =
      (Response 200 None,
       logKillSwitchEvent ''kill_customer'' ''customer'' (Some cid) uid (get [] rsn) ''manual''
         (w\<lparr>agents := map ?f (agents w)\<rparr>))"
    using c v by (simp add: kill_customer_def Let_def)
  have "filter (\<lambda>a. status a \<noteq> status (?f a)) (agents w)
          = filter (\<lambda>a. user_id a = uid \<and> status a \<noteq> Killed) (agents w)"
    using cm by (intro filter_cong) (auto simp add: list_ex_iff)
  then have tr: "transitions (agents w) (map ?f (agents w))
       = length (filter (\<lambda>a. user_id a = uid \<and> status a \<noteq> Killed) (agents w))"
    by (simp only: transitions_map)
  show "transitions (agents w) (agents (snd (kill_customer now uid cid rsn w)))
       = length (filter (\<lambda>a. user_id a = uid \<and> status a \<noteq> Killed) (agents w))
   \<and> kill_switch_events (snd (kill_customer now uid cid rsn w))
       = kill_switch_events w
         @ [audit ''kill_customer'' ''customer'' (Some cid) uid (get [] rsn) ''manual'']"
    unfolding res using tr by (simp add: log_events)
qed

lemma two_loops_eval:
  "(\<lambda>w. (map status (agents w), length (kill_switch_events w)))
     (checkInfiniteLoops 2000 world_two_loops) = ([Killed], 2)"
  by code_simp

text \<open>
  C3 (as amended). With \<open>(user_id, agent_id)\<close> unique among the agents: a kill, pause or
  revive through the single-agent operator routes that is answered 200 makes exactly
  one transition and appends exactly one audit record, which names the action, the
  agent, the user and the reason; a request to these routes that is refused (400, 404)
  changes nothing. \<open>triggerAutoKill\<close> appends exactly one audit record on every call and
  transitions the active rows that carry its target's id. The emergency stop and the
  kill of a customer's agents append one audit record per accepted request, whatever the
  number of agents they transition. Killing an agent that is already killed changes no
  agent row; the operator route then appends no audit record, the evaluator's
  \<open>triggerAutoKill\<close> still appends its one.
\<close>

theorem C3_audit_per_transition:
  assumes "distinct (map (\<lambda>a. (user_id a, agent_id a)) (agents w))"
  shows
  "(fst (kill_agent now uid ext rsn w) = Response 200 None \<longrightarrow>
        transitions (agents w) (agents (snd (kill_agent now uid ext rsn w))) = 1
      \<and> kill_switch_events (snd (kill_agent now uid ext rsn w))
          = kill_switch_events w
            @ [audit ''kill_agent'' ''agent'' (Some ext) uid (get [] rsn) ''manual''])
   \<and> (fst (kill_agent now uid ext rsn w) \<noteq> Response 200 None \<longrightarrow>
        snd (kill_agent now uid ext rsn w) = w)
   \<and> (fst (pause_agent now uid ext pb w) = Response 200 None \<longrightarrow>
        transitions (agents w) (agents (snd (pause_agent now uid ext pb w))) = 1
      \<and> kill_switch_events (snd (pause_agent now uid ext pb w))
          = kill_switch_events w
            @ [audit ''pause_agent'' ''agent'' (Some ext) uid (get [] (p_reason pb)) ''manual''])
   \<and> (fst (pause_agent now uid ext pb w) \<noteq> Response 200 None \<longrightarrow>
        snd (pause_agent now uid ext pb w) = w)
   \<and> (fst (revive_agent uid ext rr w) = Response 200 None \<longrightarrow>
        transitions (agents w) (agents (snd (revive_agent uid ext rr w))) = 1
      \<and> kill_switch_events (snd (revive_agent uid ext rr w))
          = kill_switch_events w
            @ [audit ''revive_agent'' ''agent'' (Some ext) uid
                 (case rr of ReasonText r \<Rightarrow> r | _ \<Rightarrow> ''Manual revival'') ''manual''])
   \<and> (fst (revive_agent uid ext rr w) = Response 404 None \<longrightarrow>
        snd (revive_agent uid ext rr w) = w)
   \<and> kill_switch_events (triggerAutoKill now t v w)
       = kill_switch_events w
         @ [audit ''kill_agent'' ''agent'' (Some (v_agent_id v)) (t_user_id t) (auto_kill_reason t)
              (''auto_'' @ t_trigger_type t)]
   \<and> transitions (agents w) (agents (triggerAutoKill now t v w))
       = length (filter (\<lambda>a. uuid a = v_agent_uuid v \<and> status a = Active) (agents w))
   \<and> (fst (emergency_stop_all now uid sb w) = Response 200 None \<longrightarrow>
        transitions (agents w) (agents (snd (emergency_stop_all now uid sb w)))
          = length (filter (\<lambda>a. status a \<noteq> Killed) (agents w))
      \<and> kill_switch_events (snd (emergency_stop_all now uid sb w))
          = kill_switch_events w
            @ [audit ''emergency_stop_all'' ''global'' None uid (get [] (s_reason sb)) ''manual''])
   \<and> (fst (emergency_stop_all now uid sb w) \<noteq> Response 200 None \<longrightarrow>
        snd (emergency_stop_all now uid sb w) = w)
   \<and> (fst (kill_customer now uid cid rsn w) = Response 200 None \<longrightarrow>
        transitions (agents w) (agents (snd (kill_customer now uid cid rsn w)))
          = length (filter (\<lambda>a. user_id a = uid \<and> status a \<noteq> Killed) (agents w))
      \<and> kill_switch_events (snd (kill_customer now uid cid rsn w))
          = kill_switch_events w
            @ [audit ''kill_customer'' ''customer'' (Some cid) uid (get [] rsn) ''manual''])
   \<and> (fst (kill_customer now uid cid rsn w) \<noteq> Response 200 None \<longrightarrow>
        snd (kill_customer now uid cid rsn w) = w)
   \<and> ((\<forall>a \<in> set (agents w). user_id a = uid \<and> agent_id a = ext \<longrightarrow> status a = Killed) \<longrightarrow>
        fst (kill_agent now uid ext rsn w) \<noteq> Response 200 None
      \<and> snd (kill_agent now uid ext rsn w) = w)
   \<and> ((\<forall>a \<in> set (agents w). uuid a = v_agent_uuid v \<longrightarrow> status a = Killed) \<longrightarrow>
        agents (triggerAutoKill now t v w) = agents w)"
proof (intro conjI impI)
  assume "fst (kill_agent now uid ext rsn w) = Response 200 None"
  note k = kill_agent_audit(1) [OF assms this]
  show "transitions (agents w) (agents (snd (kill_agent now uid ext rsn w))) = 1"
    by (rule k [THEN conjunct1])
  show "kill_switch_events (snd (kill_agent now uid ext rsn w))
          = kill_switch_events w
            @ [audit ''kill_agent'' ''agent'' (Some ext) uid (get [] rsn) ''manual'']"
    by (rule k [THEN conjunct2])
next
  assume "fst (kill_agent now uid ext rsn w) \<noteq> Response 200 None"
  then show "snd (kill_agent now uid ext rsn w) = w" by (rule kill_agent_audit(2) [OF assms])
next
  assume "fst (pause_agent now uid ext pb w) = Response 200 None"
  note k = pause_agent_audit(1) [OF assms this]
  show "transitions (agents w) (agents (snd (pause_agent now uid ext pb w))) = 1"
    by (rule k [THEN conjunct1])
  show "kill_switch_events (snd (pause_agent now uid ext pb w))
          = kill_switch_events w
            @ [audit ''pause_agent'' ''agent'' (Some ext) uid (get [] (p_reason pb)) ''manual'']"
    by (rule k [THEN conjunct2])
next
  assume "fst (pause_agent now uid ext pb w) \<noteq> Response 200 None"
  then show "snd (pause_agent now uid ext pb w) = w" by (rule pause_agent_audit(2) [OF assms])
next
  assume "fst (revive_agent uid ext rr w) = Response 200 None"
  note k = revive_agent_audit(1) [OF assms this]
  show "transitions (agents w) (agents (snd (revive_agent uid ext rr w))) = 1"
    by (rule k [THEN conjunct1])
  show "kill_switch_events (snd (revive_agent uid ext rr w))
          = kill_switch_events w
            @ [audit ''revive_agent'' ''agent'' (Some ext) uid
                 (case rr of ReasonText r \<Rightarrow> r | _ \<Rightarrow> ''Manual revival'') ''manual'']"
    by (rule k [THEN conjunct2])
next
  assume "fst (revive_agent uid ext rr w) = Response 404 None"
  then show "snd (revive_agent uid ext rr w) = w" by (rule revive_agent_audit(2) [OF assms])
next
  show "kill_switch_events (triggerAutoKill now t v w)
       = kill_switch_events w
         @ [audit ''kill_agent'' ''agent'' (Some (v_agent_id v)) (t_user_id t) (auto_kill_reason t)
              (''auto_'' @ t_trigger_type t)]"
    by (rule triggerAutoKill_audit(1))
  show "transitions (agents w) (agents (triggerAutoKill now t v w))
       = length (filter (\<lambda>a. uuid a = v_agent_uuid v \<and> status a = Active) (agents w))"
    by (rule triggerAutoKill_audit(2))
next
  assume "fst (emergency_stop_all now uid sb w) = Response 200 None"
  note k = emergency_stop_audit(1) [OF this]
  show "transitions (agents w) (agents (snd (emergency_stop_all now uid sb w)))
          = length (filter (\<lambda>a. status a \<noteq> Killed) (agents w))"
    by (rule k [THEN conjunct1])
  show "kill_switch_events (snd (emergency_stop_all now uid sb w))
          = kill_switch_events w
            @ [audit ''emergency_stop_all'' ''global'' None uid (get [] (s_reason sb)) ''manual'']"
    by (rule k [THEN conjunct2])
next
  assume "fst (emergency_stop_all now uid sb w) \<noteq> Response 200 None"
  then show "snd (emergency_stop_all now uid sb w) = w" by (rule emergency_stop_audit(2))
next
  assume "fst (kill_customer now uid cid rsn w) = Response 200 None"
  note k = kill_customer_audit(1) [OF this]
  show "transitions (agents w) (agents (snd (kill_customer now uid cid rsn w)))
          = length (filter (\<lambda>a. user_id a = uid \<and> status a \<noteq> Killed) (agents w))"
    by (rule k [THEN conjunct1])
  show "kill_switch_events (snd (kill_customer now uid cid rsn w))
          = kill_switch_events w
            @ [audit ''kill_customer'' ''customer'' (Some cid) uid (get [] rsn) ''manual'']"
    by (rule k [THEN conjunct2])
next
  assume "fst (kill_customer now uid cid rsn w) \<noteq> Response 200 None"
  then show "snd (kill_customer now uid cid rsn w) = w" by (rule kill_customer_audit(2))
next
  assume all: "\<forall>a \<in> set (agents w). user_id a = uid \<and> agent_id a = ext \<longrightarrow> status a = Killed"
  then have "filter (\<lambda>a. user_id a = uid \<and> agent_id a = ext \<and> status a \<noteq> Killed) (agents w) = []"
    by (auto simp add: filter_empty_conv)
  then show ne: "fst (kill_agent now uid ext rsn w) \<noteq> Response 200 None"
    by (simp add: kill_agent_def Let_def)
  show "snd (kill_agent now uid ext rsn w) = w"
    by (rule kill_agent_audit(2) [OF assms ne])
next
  assume "\<forall>a \<in> set (agents w). uuid a = v_agent_uuid v \<longrightarrow> status a = Killed"
  then have "\<forall>a \<in> set (agents w). uuid a = v_agent_uuid v \<longrightarrow> status a \<noteq> Active"
    by auto
  then show "agents (triggerAutoKill now t v w) = agents w"
    by (rule triggerAutoKill_audit(3))
qed

theorem C3_audit_per_transition_witness:
  "fst (kill_agent 1000 1 ''X'' (Some ''runaway'') world_0) = Response 200 None
   \<and> transitions (agents world_0) (agents (snd (kill_agent 1000 1 ''X'' (Some ''runaway'') world_0))) = 1
   \<and> kill_switch_events (snd (kill_agent 1000 1 ''X'' (Some ''runaway'') world_0))
       = [audit ''kill_agent'' ''agent'' (Some ''X'') 1 ''runaway'' ''manual'']
   \<and> map status (agents world_killed) = [Killed]
   \<and> fst (kill_agent 1000 1 ''X'' (Some ''runaway'') world_killed) \<noteq> Response 200 None
   \<and> snd (kill_agent 1000 1 ''X'' (Some ''runaway'') world_killed) = world_killed
   \<and> agents (triggerAutoKill 1000 loop_trigger violation_X world_killed) = agents world_killed
   \<and> length (kill_switch_events (triggerAutoKill 1000 loop_trigger violation_X world_killed)) = 1
   \<and> fst (revive_agent 1 ''X'' ReasonAbsent world_killed) = Response 200 None
   \<and> transitions (agents world_killed) (agents (snd (revive_agent 1 ''X'' ReasonAbsent world_killed))) = 1
   \<and> kill_switch_events (snd (revive_agent 1 ''X'' ReasonAbsent world_killed))
       = [audit ''revive_agent'' ''agent'' (Some ''X'') 1 ''Manual revival'' ''manual'']"
proof -
  have d0: "distinct (map (\<lambda>a. (user_id a, agent_id a)) (agents world_0))"
    by (simp add: scenario_defs)
  have dk: "distinct (map (\<lambda>a. (user_id a, agent_id a)) (agents world_killed))"
    by (simp add: world_killed_def scenario_defs)
  note A = C3_audit_per_transition [OF d0, where now = 1000 and uid = 1 and ext = "''X''"
      and rsn = "Some ''runaway''"]
  note B = C3_audit_per_transition [OF dk, where now = 1000 and uid = 1 and ext = "''X''"
      and rsn = "Some ''runaway''" and t = loop_trigger and v = violation_X and rr = ReasonAbsent]
  note B5 = B [THEN conjunct2, THEN conjunct2, THEN conjunct2, THEN conjunct2]
  note B7 = B5 [THEN conjunct2, THEN conjunct2]
  note B13 = B7 [THEN conjunct2, THEN conjunct2, THEN conjunct2, THEN conjunct2, THEN conjunct2,
      THEN conjunct2]
  have ok: "fst (kill_agent 1000 1 ''X'' (Some ''runaway'') world_0) = Response 200 None"
    by (simp add: kill_agent_def killAgentSchema_def scenario_defs Let_def)
  have rv: "fst (revive_agent 1 ''X'' ReasonAbsent world_killed) = Response 200 None"
    by (simp add: revive_agent_def world_killed_def scenario_defs Let_def)
  have st: "map status (agents world_killed) = [Killed]"
    by (simp add: world_killed_def)
  have e0: "kill_switch_events world_0 = []" "kill_switch_events world_killed = []"
    by (simp_all add: world_killed_def world_0_def)
  have k1: "\<forall>a \<in> set (agents world_killed). user_id a = 1 \<and> agent_id a = ''X'' \<longrightarrow> status a = Killed"
    by (simp add: world_killed_def)
  have k2: "\<forall>a \<in> set (agents world_killed). uuid a = v_agent_uuid violation_X \<longrightarrow> status a = Killed"
    by (simp add: world_killed_def)
  note a = mp [OF A [THEN conjunct1] ok]
  note r = mp [OF B5 [THEN conjunct1] rv]
  note l = B7 [THEN conjunct1]
  note b = mp [OF B13 [THEN conjunct1] k1]
  note c = mp [OF B13 [THEN conjunct2] k2]
  show ?thesis using ok rv st a r l b c by (simp add: e0 get_def)
qed

text \<open>
  C3 as stated fails. \<open>triggerAutoKill\<close> on the already killed agent X changes no row
  and appends an audit record all the same, and one evaluator pass over an active agent
  with two looping request groups makes one transition and appends two audit records.
  An emergency stop, and a kill of a customer's agents, over the two active agents X and
  Y make two transitions and append one audit record. A revive whose body carries
  \<open>reason: null\<close> makes its transition and appends no audit record.
\<close>

theorem C3_counterexample:
  "map status (agents world_killed) = [Killed]
   \<and> agents (triggerAutoKill 1000 loop_trigger violation_X world_killed) = agents world_killed
   \<and> length (kill_switch_events world_killed) = 0
   \<and> length (kill_switch_events (triggerAutoKill 1000 loop_trigger violation_X world_killed)) = 1
   \<and> map status (agents world_two_loops) = [Active]
   \<and> length (kill_switch_events world_two_loops) = 0
   \<and> map status (agents (checkInfiniteLoops 2000 world_two_loops)) = [Killed]
   \<and> length (kill_switch_events (checkInfiniteLoops 2000 world_two_loops)) = 2
   \<and> length (kill_switch_events world_two_agents) = 0
   \<and> fst (emergency_stop_all 1000 1 stop_confirmed world_two_agents) = Response 200 None
   \<and> transitions (agents world_two_agents)
        (agents (snd (emergency_stop_all 1000 1 stop_confirmed world_two_agents))) = 2
   \<and> length (kill_switch_events (snd (emergency_stop_all 1000 1 stop_confirmed world_two_agents))) = 1
   \<and> fst (kill_customer 1000 1 ''acme'' (Some ''fraud'') world_two_agents) = Response 200 None
   \<and> transitions (agents world_two_agents)
        (agents (snd (kill_customer 1000 1 ''acme'' (Some ''fraud'') world_two_agents))) = 2
   \<and> length (kill_switch_events (snd (kill_customer 1000 1 ''acme'' (Some ''fraud'') world_two_agents))) = 1
   \<and> fst (revive_agent 1 ''X'' ReasonNull world_killed) = Response 500 None
   \<and> map status (agents (snd (revive_agent 1 ''X'' ReasonNull world_killed))) = [Active]
   \<and> transitions (agents world_killed) (agents (snd (revive_agent 1 ''X'' ReasonNull world_killed))) = 1
   \<and> kill_switch_events (snd (revive_agent 1 ''X'' ReasonNull world_killed)) = []"
  using two_loops_eval
  by (simp add: world_killed_def world_two_loops_def world_two_agents_def agent_Y_def scenario_defs
      triggerAutoKill_def loop_trigger_def violation_X_def transitions_def
      emergency_stop_all_def emergencyStopSchema_def stop_confirmed_def
      kill_customer_def killAgentSchema_def revive_agent_def get_def Let_def)

subsection \<open>Loop detection\<close>

lemma triggerAutoKill_agents:
  "agents (triggerAutoKill now t v w) = map (auto_kill_row now t v) (agents w)"
  by (simp add: triggerAutoKill_def auto_kill_row_def)

lemma fold_kill_agents:
  "agents (foldl (\<lambda>w' (t, v). triggerAutoKill now t v w') w rows)
     = map (loop_check_row now rows) (agents w)"
proof (induction rows arbitrary: w)
  case Nil
  then show ?case by (simp add: loop_check_row_def)
next
  case (Cons r rs)
  obtain t v where r: "r = (t, v)" by (cases r)
  show ?case
    by (simp add: r Cons.IH triggerAutoKill_agents loop_check_row_def)
qed

lemma checkInfiniteLoops_agents:
  "agents (checkInfiniteLoops now w) = map (loop_check_row now (loops now w)) (agents w)"
  by (simp add: checkInfiniteLoops_def fold_kill_agents)

lemma row_uuid [simp]: "uuid (loop_check_row now rows a) = uuid a"
  by (induction rows arbitrary: a) (auto simp add: loop_check_row_def auto_kill_row_def)

lemma row_not_active: "status a \<noteq> Active \<Longrightarrow> loop_check_row now rows a = a"
  by (induction rows arbitrary: a) (auto simp add: loop_check_row_def auto_kill_row_def)

lemma row_untargeted:
  "\<forall>r \<in> set rows. v_agent_uuid (snd r) \<noteq> uuid a \<Longrightarrow> loop_check_row now rows a = a"
  by (induction rows arbitrary: a) (auto simp add: loop_check_row_def auto_kill_row_def)

lemma row_killed:
  "status a = Active \<Longrightarrow> r \<in> set rows \<Longrightarrow> v_agent_uuid (snd r) = uuid a \<Longrightarrow>
   status (loop_check_row now rows a) = Killed \<and> kill_reason (loop_check_row now rows a) \<noteq> None"
proof (induction rows arbitrary: a)
  case Nil
  then show ?case by simp
next
  case (Cons x xs)
  obtain t v where x: "x = (t, v)" by (cases x)
  have step: "loop_check_row now (x # xs) a = loop_check_row now xs (auto_kill_row now t v a)"
    by (simp add: loop_check_row_def x)
  show ?case
  proof (cases "v_agent_uuid v = uuid a")
    case True
    let ?a' = "auto_kill_row now t v a"
    have k: "status ?a' = Killed" "kill_reason ?a' \<noteq> None"
      using True Cons.prems(1) by (simp_all add: auto_kill_row_def)
    then have "loop_check_row now xs ?a' = ?a'" by (intro row_not_active) simp
    then show ?thesis using k by (simp add: step)
  next
    case False
    then have same: "auto_kill_row now t v a = a" by (simp add: auto_kill_row_def)
    have "r \<in> set xs" using Cons.prems(2,3) False x by auto
    then show ?thesis using Cons.IH [OF Cons.prems(1) _ Cons.prems(3)] by (simp add: step same)
  qed
qed

lemma filter_present: "x \<in> set xs \<Longrightarrow> P x \<Longrightarrow> 1 \<le> length (filter P xs)"
  by (induction xs) auto

lemma distinct_uuid_filter:
  "distinct (map uuid ags) \<Longrightarrow> length (filter (\<lambda>a. i = uuid a \<and> P a) ags) \<le> 1"
proof (induction ags)
  case Nil
  then show ?case by simp
next
  case (Cons a ags)
  show ?case
  proof (cases "i = uuid a")
    case True
    have "uuid a \<notin> uuid ` set ags" using Cons.prems by simp
    then have "\<forall>a' \<in> set ags. uuid a' \<noteq> uuid a" by (metis image_eqI)
    then have F: "filter (\<lambda>a'. uuid a = uuid a' \<and> P a') ags = []"
      by (fastforce simp add: filter_empty_conv)
    show ?thesis unfolding True by (simp add: F)
  next
    case False
    then show ?thesis using Cons by simp
  qed
qed

text \<open>The rows of the join for a list of events.\<close>

lemma loop_rows_Nil: "loop_rows now (w\<lparr>usage_events := []\<rparr>) = []"
  by (simp add: loop_rows_def)

lemma loop_rows_Cons:
  "loop_rows now (w\<lparr>usage_events := e # es\<rparr>) =
     (if ue_created_at e \<ge> now - 600000 \<and> ue_request_hash e \<noteq> None
      then map (\<lambda>a. (e, a)) (filter (\<lambda>a. ue_agent_id e = uuid a \<and> status a = Active) (agents w))
      else []) @ loop_rows now (w\<lparr>usage_events := es\<rparr>)"
  by (auto simp add: loop_rows_def)

lemma loop_rows_count:
  "length (filter K (loop_rows now (w\<lparr>usage_events := e # es\<rparr>))) =
     length (filter K
       (if ue_created_at e \<ge> now - 600000 \<and> ue_request_hash e \<noteq> None
        then map (\<lambda>a. (e, a)) (filter (\<lambda>a. ue_agent_id e = uuid a \<and> status a = Active) (agents w))
        else []))
     + length (filter K (loop_rows now (w\<lparr>usage_events := es\<rparr>)))"
  by (simp only: loop_rows_Cons filter_append length_append)

lemma count_ge_aux:
  assumes "a \<in> set (agents w)" "status a = Active"
  shows "length (filter (same_request now (uuid a) n m h) es)
           \<le> length (filter (\<lambda>r. loop_key r = (uuid a, agent_id a, n, m, h))
                       (loop_rows now (w\<lparr>usage_events := es\<rparr>)))"
proof (induction es)
  case Nil
  then show ?case by (simp add: loop_rows_Nil)
next
  case (Cons e es)
  let ?F = "map (\<lambda>a. (e, a)) (filter (\<lambda>a. ue_agent_id e = uuid a \<and> status a = Active) (agents w))"
  let ?K = "\<lambda>r. loop_key r = (uuid a, agent_id a, n, m, h)"
  let ?c = "ue_created_at e \<ge> now - 600000 \<and> ue_request_hash e \<noteq> None"
  show ?case
  proof (cases "same_request now (uuid a) n m h e")
    case True
    have "(e, a) \<in> set ?F" using True assms by (simp add: same_request_def)
    moreover have "?K (e, a)"
      using True by (simp add: same_request_def loop_key_def)
    ultimately have 1: "1 \<le> length (filter ?K ?F)"
      by (rule filter_present)
    have c: ?c using True by (auto simp add: same_request_def)
    have "length (filter ?K (if ?c then ?F else [])) = length (filter ?K ?F)"
      using c by simp
    then show ?thesis
      using 1 Cons.IH True unfolding loop_rows_count [where K = ?K and now = now and w = w and e = e and es = es] by simp
  next
    case False
    then show ?thesis
      using Cons.IH unfolding loop_rows_count [where K = ?K and now = now and w = w and e = e and es = es] by simp
  qed
qed

lemma count_ge:
  assumes "a \<in> set (agents w)" "status a = Active"
  shows "length (filter (same_request now (uuid a) n m h) (usage_events w))
           \<le> identical_requests now w (uuid a, agent_id a, n, m, h)"
proof -
  have "length (filter (same_request now (uuid a) n m h) (usage_events w))
           \<le> length (filter (\<lambda>r. loop_key r = (uuid a, agent_id a, n, m, h))
                       (loop_rows now (w\<lparr>usage_events := usage_events w\<rparr>)))"
    by (rule count_ge_aux [OF assms])
  then show ?thesis by (simp add: identical_requests_def)
qed

lemma count_le_aux:
  assumes "distinct (map uuid (agents w))"
  shows "length (filter (\<lambda>r. loop_key r = (i, x, n, m, h)) (loop_rows now (w\<lparr>usage_events := es\<rparr>)))
           \<le> length (filter (same_request now i n m h) es)"
proof (induction es)
  case Nil
  then show ?case by (simp add: loop_rows_Nil)
next
  case (Cons e es)
  let ?F = "map (\<lambda>a. (e, a)) (filter (\<lambda>a. ue_agent_id e = uuid a \<and> status a = Active) (agents w))"
  let ?K = "\<lambda>r. loop_key r = (i, x, n, m, h)"
  let ?c = "ue_created_at e \<ge> now - 600000 \<and> ue_request_hash e \<noteq> None"
  have one: "length (filter ?K (if ?c then ?F else [])) \<le> 1"
  proof -
    have "length (filter ?K ?F) \<le> length ?F" by (rule length_filter_le)
    also have "\<dots> \<le> 1" using distinct_uuid_filter [OF assms] by simp
    finally show ?thesis by (cases ?c) simp_all
  qed
  show ?case
  proof (cases "same_request now i n m h e")
    case True
    then show ?thesis
      using one Cons.IH unfolding loop_rows_count [where K = ?K and now = now and w = w and e = e and es = es] by simp
  next
    case False
    have "\<forall>r \<in> set (if ?c then ?F else []). \<not> ?K r"
      using False by (auto simp add: loop_key_def same_request_def)
    then have "filter ?K (if ?c then ?F else []) = []"
      by (simp only: filter_empty_conv)
    then have "length (filter ?K (if ?c then ?F else [])) = 0" by simp
    then show ?thesis
      using False Cons.IH unfolding loop_rows_count [where K = ?K and now = now and w = w and e = e and es = es] by simp
  qed
qed

lemma count_le:
  assumes "distinct (map uuid (agents w))"
  shows "identical_requests now w (i, x, n, m, h)
           \<le> length (filter (same_request now i n m h) (usage_events w))"
proof -
  have "length (filter (\<lambda>r. loop_key r = (i, x, n, m, h))
                  (loop_rows now (w\<lparr>usage_events := usage_events w\<rparr>)))
           \<le> length (filter (same_request now i n m h) (usage_events w))"
    by (rule count_le_aux [OF assms])
  then show ?thesis by (simp add: identical_requests_def)
qed

lemma in_concat_map: "x \<in> set xs \<Longrightarrow> y \<in> set (f x) \<Longrightarrow> y \<in> set (concat (map f xs))"
  by auto

lemma concat_map_D: "y \<in> set (concat (map f xs)) \<Longrightarrow> \<exists>x \<in> set xs. y \<in> set (f x)"
  by auto

lemma loops_target:
  assumes "a \<in> set (agents w)" "status a = Active"
    and "50 \<le> length (filter (same_request now (uuid a) n m h) (usage_events w))"
  shows "\<exists>r \<in> set (loops now w). v_agent_uuid (snd r) = uuid a"
proof -
  let ?k = "(uuid a, agent_id a, n, m, h)"
  have c: "50 \<le> identical_requests now w ?k" using count_ge [OF assms(1,2)] assms(3) by (rule order_trans [rotated])
  then have "filter (\<lambda>r. loop_key r = ?k) (loop_rows now w) \<noteq> []"
    by (auto simp add: identical_requests_def)
  then obtain r where "r \<in> set (loop_rows now w)" "loop_key r = ?k"
    by (auto simp add: filter_empty_conv)
  then have "?k \<in> set (map loop_key (loop_rows now w))" by force
  then have k: "?k \<in> set (request_patterns now w)" using c by (simp add: request_patterns_def)
  let ?g = "\<lambda>k a. (\<lparr>t_user_id = user_id a, t_trigger_type = ''infinite_loop'',
                       t_trigger_name = ''Auto Loop Detection'',
                       t_threshold_value = show_nat (identical_requests now w k)\<rparr>,
                     \<lparr>v_agent_id = fst (snd k), v_agent_uuid = fst k\<rparr>)"
  have "?g ?k a \<in> set (map (?g ?k) (filter (\<lambda>a'. uuid a' = fst ?k) (agents w)))"
    using assms(1) by simp
  then have "?g ?k a \<in> set (loops now w)"
    unfolding loops_def by (rule in_concat_map [OF k])
  moreover have "v_agent_uuid (snd (?g ?k a)) = uuid a" by simp
  ultimately show ?thesis by blast
qed

lemma loops_source:
  assumes "distinct (map uuid (agents w))" "r \<in> set (loops now w)"
  shows "\<exists>n m h. 50 \<le> length (filter (same_request now (v_agent_uuid (snd r)) n m h) (usage_events w))"
proof -
  obtain k where "k \<in> set (request_patterns now w)"
    and "r \<in> set (map (\<lambda>a. (\<lparr>t_user_id = user_id a, t_trigger_type = ''infinite_loop'',
                                   t_trigger_name = ''Auto Loop Detection'',
                                   t_threshold_value = show_nat (identical_requests now w k)\<rparr>,
                                  \<lparr>v_agent_id = fst (snd k), v_agent_uuid = fst k\<rparr>))
                         (filter (\<lambda>a. uuid a = fst k) (agents w)))"
    using concat_map_D [OF assms(2) [unfolded loops_def]] by blast
  then have k: "k \<in> set (request_patterns now w)" "v_agent_uuid (snd r) = fst k"
    by auto
  obtain i x n m h where kk: "k = (i, x, n, m, h)" by (cases k)
  have "50 \<le> identical_requests now w k" using k(1) by (simp add: request_patterns_def)
  then have "50 \<le> length (filter (same_request now i n m h) (usage_events w))"
    using count_le [OF assms(1)] kk order_trans by blast
  then show ?thesis using k(2) kk by auto
qed

lemma uuid_unique:
  "distinct (map uuid ags) \<Longrightarrow> a \<in> set ags \<Longrightarrow> b \<in> set ags \<Longrightarrow> uuid a = uuid b \<Longrightarrow> a = b"
  by (auto simp add: distinct_map dest: inj_onD)

lemma loop_check_kills:
  assumes "distinct (map uuid (agents w))" "a \<in> set (agents w)" "status a = Active"
    and "50 \<le> length (filter (same_request now (uuid a) n m h) (usage_events w))"
  shows "(\<forall>r \<in> set (agents (checkInfiniteLoops now w)).
            uuid r = uuid a \<longrightarrow> status r = Killed \<and> kill_reason r \<noteq> None)
       \<and> (\<exists>r \<in> set (agents (checkInfiniteLoops now w)). uuid r = uuid a)"
proof -
  let ?g = "loop_check_row now (loops now w)"
  obtain r0 where r0: "r0 \<in> set (loops now w)" "v_agent_uuid (snd r0) = uuid a"
    using loops_target [OF assms(2,3,4)] by blast
  have killed: "status (?g a) = Killed \<and> kill_reason (?g a) \<noteq> None"
    by (rule row_killed [OF assms(3) r0])
  have all: "status r = Killed \<and> kill_reason r \<noteq> None"
    if "r \<in> set (agents (checkInfiniteLoops now w))" "uuid r = uuid a" for r
  proof -
    have "r \<in> ?g ` set (agents w)"
      using that(1) by (simp add: checkInfiniteLoops_agents)
    then obtain a0 where a0: "a0 \<in> set (agents w)" "r = ?g a0"
      by (elim imageE)
    then have "uuid a0 = uuid a" using that(2) by simp
    then have "a0 = a" using uuid_unique [OF assms(1) a0(1) assms(2)] by simp
    then show ?thesis using killed a0(2) by simp
  qed
  have "?g a \<in> set (agents (checkInfiniteLoops now w))"
    unfolding checkInfiniteLoops_agents using assms(2) by simp
  moreover have "uuid (?g a) = uuid a" by simp
  ultimately show ?thesis using all by blast
qed

lemma loop_check_spares_row:
  assumes "distinct (map uuid (agents w))"
    and "\<forall>n m h. length (filter (same_request now (uuid a) n m h) (usage_events w)) < 50"
  shows "loop_check_row now (loops now w) a = a"
proof (rule row_untargeted, rule ballI)
  fix r assume r: "r \<in> set (loops now w)"
  show "v_agent_uuid (snd r) \<noteq> uuid a"
  proof
    assume eq: "v_agent_uuid (snd r) = uuid a"
    obtain n m h where "50 \<le> length (filter (same_request now (v_agent_uuid (snd r)) n m h) (usage_events w))"
      using loops_source [OF assms(1) r] by blast
    then show False using assms(2) eq by (metis not_less)
  qed
qed

lemma loop_check_spares:
  assumes "distinct (map uuid (agents w))" "a \<in> set (agents w)"
    and "\<forall>n m h. length (filter (same_request now (uuid a) n m h) (usage_events w)) < 50"
  shows "(\<forall>r \<in> set (agents (checkInfiniteLoops now w)). uuid r = uuid a \<longrightarrow> r = a)
       \<and> a \<in> set (agents (checkInfiniteLoops now w))"
proof -
  let ?g = "loop_check_row now (loops now w)"
  have same: "?g a = a" by (rule loop_check_spares_row [OF assms(1,3)])
  have all: "r = a" if "r \<in> set (agents (checkInfiniteLoops now w))" "uuid r = uuid a" for r
  proof -
    have "r \<in> ?g ` set (agents w)"
      using that(1) by (simp add: checkInfiniteLoops_agents)
    then obtain a0 where a0: "a0 \<in> set (agents w)" "r = ?g a0"
      by (elim imageE)
    then have "uuid a0 = uuid a" using that(2) by simp
    then have "a0 = a" using uuid_unique [OF assms(1) a0(1) assms(2)] by simp
    then show ?thesis using same a0(2) by simp
  qed
  have "?g a \<in> set (agents (checkInfiniteLoops now w))"
    unfolding checkInfiniteLoops_agents using assms(2) by simp
  then show ?thesis using all same by simp
qed

lemma loop_check_not_active:
  "\<forall>a \<in> set (agents w). status a \<noteq> Active \<Longrightarrow> agents (checkInfiniteLoops now w) = agents w"
  unfolding checkInfiniteLoops_agents by (rule map_idI) (simp add: row_not_active)

lemma loop_check_below:
  assumes "distinct (map uuid (agents w))"
    and "\<forall>a \<in> set (agents w). \<forall>n m h.
           length (filter (same_request now (uuid a) n m h) (usage_events w)) < 50"
  shows "agents (checkInfiniteLoops now w) = agents w"
  unfolding checkInfiniteLoops_agents
  by (rule map_idI) (simp add: loop_check_spares_row [OF assms(1)] assms(2))

text \<open>
  C7 (as amended). Let ids be unique and \<open>a\<close> be an agent row. If \<open>a\<close> is active and
  at least 50 ledger events of \<open>a\<close> in the last 10 minutes share event name, model and
  request hash, the loop check leaves \<open>a\<close> killed, with a kill reason. If every such
  group of \<open>a\<close> has fewer than 50 events (49, say), the loop check leaves the row of \<open>a\<close>
  as it was.
\<close>

theorem C7_duplicate_loop_threshold:
  assumes "distinct (map uuid (agents w))" and "a \<in> set (agents w)"
  shows "(status a = Active
          \<and> 50 \<le> length (filter (same_request now (uuid a) n m h) (usage_events w)) \<longrightarrow>
            (\<forall>r \<in> set (agents (checkInfiniteLoops now w)).
                uuid r = uuid a \<longrightarrow> status r = Killed \<and> kill_reason r \<noteq> None)
          \<and> (\<exists>r \<in> set (agents (checkInfiniteLoops now w)). uuid r = uuid a))
       \<and> ((\<forall>n m h. length (filter (same_request now (uuid a) n m h) (usage_events w)) < 50) \<longrightarrow>
            (\<forall>r \<in> set (agents (checkInfiniteLoops now w)). uuid r = uuid a \<longrightarrow> r = a)
          \<and> a \<in> set (agents (checkInfiniteLoops now w)))"
proof (intro conjI impI)
  assume h: "status a = Active
          \<and> 50 \<le> length (filter (same_request now (uuid a) n m h) (usage_events w))"
  note k = loop_check_kills [OF assms conjunct1 [OF h] conjunct2 [OF h]]
  show "\<forall>r \<in> set (agents (checkInfiniteLoops now w)).
                uuid r = uuid a \<longrightarrow> status r = Killed \<and> kill_reason r \<noteq> None"
    by (rule conjunct1 [OF k])
  show "\<exists>r \<in> set (agents (checkInfiniteLoops now w)). uuid r = uuid a"
    by (rule conjunct2 [OF k])
next
  assume h: "\<forall>n m h. length (filter (same_request now (uuid a) n m h) (usage_events w)) < 50"
  note s = loop_check_spares [OF assms h]
  show "\<forall>r \<in> set (agents (checkInfiniteLoops now w)). uuid r = uuid a \<longrightarrow> r = a"
    by (rule conjunct1 [OF s])
  show "a \<in> set (agents (checkInfiniteLoops now w))"
    by (rule conjunct2 [OF s])
qed

lemma world_loop_facts:
  "distinct (map uuid (agents (world_loop k)))" "agent_X \<in> set (agents (world_loop k))"
  "status agent_X = Active"
  by (simp_all add: world_loop_def scenario_defs)

lemma world_loop_count:
  "length (filter (same_request 2000 (uuid agent_X) n m h) (usage_events (world_loop k)))
     = (if n = ''completion'' \<and> m = None \<and> h = Some ''h1'' then k else 0)"
  by (auto simp add: world_loop_def world_0_def agent_X_def same_request_def loop_event_def)

theorem C7_duplicate_loop_threshold_witness:
  "distinct (map uuid (agents (world_loop 50))) \<and> agent_X \<in> set (agents (world_loop 50))
   \<and> status agent_X = Active
   \<and> 50 \<le> length (filter (same_request 2000 (uuid agent_X) ''completion'' None (Some ''h1''))
                     (usage_events (world_loop 50)))
   \<and> map status (agents (checkInfiniteLoops 2000 (world_loop 50))) = [Killed]
   \<and> distinct (map uuid (agents (world_loop 49))) \<and> agent_X \<in> set (agents (world_loop 49))
   \<and> length (filter (same_request 2000 (uuid agent_X) ''completion'' None (Some ''h1''))
                     (usage_events (world_loop 49))) = 49
   \<and> (\<forall>n m h. length (filter (same_request 2000 (uuid agent_X) n m h)
                     (usage_events (world_loop 49))) < 50)
   \<and> agents (checkInfiniteLoops 2000 (world_loop 49)) = agents (world_loop 49)"
proof -
  have c50: "status agent_X = Active
     \<and> 50 \<le> length (filter (same_request 2000 (uuid agent_X) ''completion'' None (Some ''h1''))
                     (usage_events (world_loop 50)))"
    by (simp add: world_loop_facts(3) world_loop_count)
  have c49: "\<forall>n m h. length (filter (same_request 2000 (uuid agent_X) n m h)
                     (usage_events (world_loop 49))) < 50"
    by (simp add: world_loop_facts(3) world_loop_count)
  have e49: "length (filter (same_request 2000 (uuid agent_X) ''completion'' None (Some ''h1''))
                     (usage_events (world_loop 49))) = 49"
    by (simp add: world_loop_facts(3) world_loop_count)
  note A = C7_duplicate_loop_threshold [OF world_loop_facts(1) [of 50] world_loop_facts(2) [of 50],
      where now = 2000 and n = "''completion''" and m = None and h = "Some ''h1''"]
  note B = C7_duplicate_loop_threshold [OF world_loop_facts(1) [of 49] world_loop_facts(2) [of 49],
      where now = 2000 and n = "''completion''" and m = None and h = "Some ''h1''"]
  note a = mp [OF conjunct1 [OF A] c50, THEN conjunct1]
  note b = mp [OF conjunct2 [OF B] c49, THEN conjunct1]
  have ag: "agents (checkInfiniteLoops 2000 (world_loop k))
              = [loop_check_row 2000 (loops 2000 (world_loop k)) agent_X]" for k
    by (simp add: checkInfiniteLoops_agents world_loop_def world_0_def)
  have killed: "map status (agents (checkInfiniteLoops 2000 (world_loop 50))) = [Killed]"
    using a by (simp add: ag)
  have spared: "agents (checkInfiniteLoops 2000 (world_loop 49)) = agents (world_loop 49)"
    using b by (simp add: ag) (simp add: world_loop_def world_0_def)
  show ?thesis
    using world_loop_facts(1,2) [of 50] world_loop_facts(1,2) [of 49] c50 c49 e49 killed spared
    by blast
qed

text \<open>
  C7 as stated fails twice: 50 recent requests of active agent X with one request hash,
  25 on each of two models, are two groups of 25 and X is not killed; and 50 identical
  recent requests of a paused agent X do not get X killed either.
\<close>

theorem C7_counterexample:
  "map status (agents world_split_loop) = [Active]
   \<and> length (filter (\<lambda>e. ue_agent_id e = uuid agent_X \<and> ue_request_hash e = Some ''h1''
                         \<and> 2000 - 600000 \<le> ue_created_at e)
        (usage_events world_split_loop)) = 50
   \<and> agents (checkInfiniteLoops 2000 world_split_loop) = agents world_split_loop
   \<and> map status (agents world_paused_loop) = [Paused]
   \<and> length (filter (same_request 2000 (uuid agent_X) ''completion'' None (Some ''h1''))
        (usage_events world_paused_loop)) = 50
   \<and> agents (checkInfiniteLoops 2000 world_paused_loop) = agents world_paused_loop"
proof -
  have d: "distinct (map uuid (agents world_split_loop))"
    by (simp add: world_split_loop_def scenario_defs)
  have below: "\<forall>a \<in> set (agents world_split_loop). \<forall>n m h.
      length (filter (same_request 2000 (uuid a) n m h) (usage_events world_split_loop)) < 50"
    by (auto simp add: world_split_loop_def world_0_def same_request_def loop_event_def
        filter_replicate)
  have split: "agents (checkInfiniteLoops 2000 world_split_loop) = agents world_split_loop"
    by (rule loop_check_below [OF d below])
  have na: "\<forall>a \<in> set (agents world_paused_loop). status a \<noteq> Active"
    by (simp add: world_paused_loop_def scenario_defs)
  have paused: "agents (checkInfiniteLoops 2000 world_paused_loop) = agents world_paused_loop"
    by (rule loop_check_not_active [OF na])
  show ?thesis
    using split paused
    by (simp add: world_split_loop_def world_paused_loop_def scenario_defs same_request_def
        loop_event_def filter_replicate)
qed

subsection \<open>Bulk recording\<close>





lemma customer_inactive [simp]:
  "inactive now uid ext (snd (ensureCustomerExists uid' c w)) = inactive now uid ext w"
  by (simp add: inactive_def)

lemma active_frame [simp]:
  "gks (snd (is_agent_active now i u w)) = gks w"
  "usage_events (snd (is_agent_active now i u w)) = usage_events w"
  "map uuid (agents (snd (is_agent_active now i u w))) = map uuid (agents w)"
  by (auto simp add: is_agent_active_def unpause_def split: option.splits)










end
